theory Spec2Isabelle
  imports Complex_Main "HOL-Library.Word"
begin

section \<open>JavaScript values\<close>

text \<open>
  A JavaScript string is a sequence of UTF-16 code units; \<open>length\<close> and \<open>slice\<close> count
  code units. \<open>js\<close> writes an ASCII literal as such a sequence.
\<close>

type_synonym jsstring = "16 word list"

definition js :: "string \<Rightarrow> jsstring" where
  "js s = map of_char s"

text \<open>
  \<open>ToString\<close> of a value that is a string or \<open>undefined\<close> (\<open>None\<close>): the regular
  expression of \<open>parseImageToBody\<close> converts its argument this way.
\<close>

definition String_of :: "jsstring option \<Rightarrow> jsstring" where
  "String_of v = (case v of None \<Rightarrow> js ''undefined'' | Some s \<Rightarrow> s)"

text \<open>Truthiness of a string or \<open>undefined\<close>: \<open>undefined\<close> and the empty string are falsy.\<close>

definition truthy :: "jsstring option \<Rightarrow> bool" where
  "truthy v = (case v of None \<Rightarrow> False | Some s \<Rightarrow> s \<noteq> [])"

text \<open>
  A number is \<open>NaN\<close> or an integer. A page number is read exactly: the rounding of
  \<open>parseInt\<close> to a double beyond \<open>2^53\<close> is left out. Every comparison with \<open>NaN\<close>
  is false and arithmetic on \<open>NaN\<close> gives \<open>NaN\<close>.
\<close>

datatype jsnum = NaN | Num int

definition num_lt :: "jsnum \<Rightarrow> int \<Rightarrow> bool" where
  "num_lt a k = (case a of NaN \<Rightarrow> False | Num i \<Rightarrow> i < k)"

definition num_sub :: "jsnum \<Rightarrow> int \<Rightarrow> jsnum" where
  "num_sub a k = (case a of NaN \<Rightarrow> NaN | Num i \<Rightarrow> Num (i - k))"

definition num_mul :: "jsnum \<Rightarrow> int \<Rightarrow> jsnum" where
  "num_mul a k = (case a of NaN \<Rightarrow> NaN | Num i \<Rightarrow> Num (i * k))"

text \<open>
  \<open>k + 1\<close> in double arithmetic, for a double \<open>k\<close> that is an integer and not negative.
  Below \<open>2^53\<close> the sum is exact. From \<open>2^53\<close> up to \<open>2^54\<close> the doubles are the even
  integers, the sum lies halfway between two of them and rounds to the one whose
  significand \<open>k div 2\<close> or \<open>k div 2 + 1\<close> is even. From \<open>2^54\<close> on the sum rounds
  back to \<open>k\<close>.
\<close>

definition num_add1 :: "int \<Rightarrow> int" where
  "num_add1 k =
     (if k < 2 ^ 53 then k + 1
      else if k < 2 ^ 54 then (if even (k div 2) then k else k + 2)
      else k)"

subsection \<open>parseInt with radix 10\<close>

text \<open>
  \<open>parseInt(s, 10)\<close> skips leading white space (the code units of \<open>WhiteSpace\<close> and
  \<open>LineTerminator\<close>), reads an optional sign and then the longest run of decimal
  digits; with no digit the result is \<open>NaN\<close>.
\<close>

definition is_white :: "16 word \<Rightarrow> bool" where
  "is_white c = (c \<in> set [0x9, 0xA, 0xB, 0xC, 0xD, 0x20, 0xA0, 0x1680, 0x2000, 0x2001,
     0x2002, 0x2003, 0x2004, 0x2005, 0x2006, 0x2007, 0x2008, 0x2009, 0x200A, 0x2028,
     0x2029, 0x202F, 0x205F, 0x3000, 0xFEFF])"

definition digit_of :: "16 word \<Rightarrow> nat option" where
  "digit_of c = (if 0x30 \<le> unat c \<and> unat c \<le> 0x39 then Some (unat c - 0x30) else None)"

fun digits_value :: "nat \<Rightarrow> jsstring \<Rightarrow> nat" where
  "digits_value acc [] = acc"
| "digits_value acc (c # s) =
     (case digit_of c of None \<Rightarrow> acc | Some d \<Rightarrow> digits_value (10 * acc + d) s)"

definition parseInt :: "jsstring \<Rightarrow> jsnum" where
  "parseInt s =
     (let t = dropWhile is_white s;
          neg = (case t of [] \<Rightarrow> False | c # _ \<Rightarrow> c = of_char CHR ''-'');
          u = (case t of [] \<Rightarrow> []
               | c # r \<Rightarrow> if c = of_char CHR ''-'' \<or> c = of_char CHR ''+'' then r else t)
      in case u of
           [] \<Rightarrow> NaN
         | c # _ \<Rightarrow>
             (case digit_of c of
                None \<Rightarrow> NaN
              | Some _ \<Rightarrow> Num ((if neg then - 1 else 1) * int (digits_value 0 u))))"

text \<open>The text of a number written in decimal digits, and the number it is read as.\<close>

definition digit_char :: "nat \<Rightarrow> 16 word" where
  "digit_char d = of_nat (0x30 + d)"

definition decimal_value :: "nat list \<Rightarrow> nat" where
  "decimal_value ds = foldl (\<lambda>a d. 10 * a + d) 0 ds"

subsection \<open>The regular expression of the thumbnail extractor\<close>

text \<open>
  The pattern \<^verbatim>\<open>/<img[^>]*src=[^>]*>/g\<close> uses two constructs: a literal code unit and a
  greedy \<^verbatim>\<open>[^c]*\<close>. \<open>match_here\<close> is the backtracking matcher anchored at the start of
  its input: a greedy star first tries to take one more code unit and gives it back when
  the rest of the pattern then fails. \<open>exec\<close> is \<open>RegExp.prototype.exec\<close> on a fresh
  expression (\<open>lastIndex = 0\<close>): the match at the leftmost position that has one; the
  result is element 0 of the match array, \<open>None\<close> is \<open>null\<close>.
\<close>

datatype re_item = Lit "16 word" | StarNot "16 word"

fun match_here :: "re_item list \<Rightarrow> jsstring \<Rightarrow> jsstring option" where
  "match_here [] s = Some []"
| "match_here (Lit c # r) [] = None"
| "match_here (Lit c # r) (x # s) =
     (if x = c then map_option ((#) x) (match_here r s) else None)"
| "match_here (StarNot c # r) [] = match_here r []"
| "match_here (StarNot c # r) (x # s) =
     (if x \<noteq> c
      then (case match_here (StarNot c # r) s of
              Some t \<Rightarrow> Some (x # t)
            | None \<Rightarrow> match_here r (x # s))
      else match_here r (x # s))"

fun exec :: "re_item list \<Rightarrow> jsstring \<Rightarrow> jsstring option" where
  "exec re [] = match_here re []"
| "exec re (x # s) =
     (case match_here re (x # s) of Some t \<Rightarrow> Some t | None \<Rightarrow> exec re s)"

definition imgReg :: "re_item list" where
  "imgReg = map Lit (js ''<img'') @ [StarNot (of_char CHR ''>'')] @ map Lit (js ''src='')
            @ [StarNot (of_char CHR ''>''), Lit (of_char CHR ''>'')]"

text \<open>Whether some \<open><\<close> of a text is directly followed by \<open>i\<close>.\<close>

fun lt_i_in :: "jsstring \<Rightarrow> bool" where
  "lt_i_in [] = False"
| "lt_i_in [x] = False"
| "lt_i_in (x # y # s) =
     ((x = of_char CHR ''<'' \<and> y = of_char CHR ''i'') \<or> lt_i_in (y # s))"

section \<open>The libraries the controller calls\<close>

text \<open>
  \<open>sanitize-html\<close>, \<open>bson\<close> and the MongoDB driver are third-party packages. Their
  functions are parameters of the model, collected in one record, so every theorem holds
  whatever these packages compute:
  \<^item> \<open>sanitizeHtml html options\<close>, applied to a string or \<open>undefined\<close>;
  \<^item> \<open>ObjectId.isValid\<close> on the text of a path parameter;
  \<^item> the cast of a text to an \<open>ObjectId\<close> that mongoose applies to an id given as a
    string (\<open>None\<close>: the cast fails and the operation rejects with a \<open>CastError\<close>);
  \<^item> \<open>ObjectId.prototype.toString\<close>;
  \<^item> what the driver does with a \<open>NaN\<close> offset: \<open>None\<close> when the query is rejected,
    \<open>Some k\<close> when it runs with the offset \<open>k\<close>.

  An option of the sanitizer that the caller does not pass is \<open>None\<close> (the package's
  default applies). An \<open>ObjectId\<close> is its 12 bytes read as a number: MongoDB orders ids
  bytewise, which is the order of these numbers.
\<close>

record sanitize_options =
  allowedTags :: "jsstring list option"
  allowedAttributes :: "(jsstring \<times> jsstring list) list option"
  allowedSchemes :: "jsstring list option"

type_synonym objectid = nat

record lib =
  sanitizeHtml :: "jsstring option \<Rightarrow> sanitize_options \<Rightarrow> jsstring"
  isValid :: "jsstring \<Rightarrow> bool"
  castObjectId :: "jsstring \<Rightarrow> objectid option"
  toString :: "objectid \<Rightarrow> jsstring"
  skipNaN :: "nat option"

definition sanitizeOption :: sanitize_options where
  "sanitizeOption =
    \<lparr> allowedTags = Some [js ''h1'', js ''h2'', js ''b'', js ''i'', js ''u'', js ''s'',
         js ''p'', js ''ul'', js ''ol'', js ''li'', js ''blockquote'', js ''a'', js ''img'',
         js ''pre'', js ''span''],
       allowedAttributes = Some
        [(js ''a'', [js ''href'', js ''name'', js ''target'']),
         (js ''img'', [js ''src'']),
         (js ''li'', [js ''class'']),
         (js ''pre'', [js ''class'', js ''spellcheck'']),
         (js ''span'', [js ''class''])],
       allowedSchemes = Some [js ''data'', js ''http''] \<rparr>"

section \<open>models/post.js\<close>

text \<open>
  No path of the schema is required, so a document may lack \<open>title\<close>, \<open>body\<close>,
  \<open>count\<close>, \<open>image\<close> or the embedded user id (\<open>None\<close>); an absent \<open>tags\<close> array is
  empty. \<open>oid\<close> is \<open>_id\<close>; \<open>image_html\<close> is the path \<open>image\<close>.
\<close>

record post_user =
  user_id :: objectid
  username :: jsstring

record post =
  oid :: objectid
  title :: "jsstring option"
  body :: "jsstring option"
  count :: "int option"
  image_html :: "jsstring option"
  tags :: "jsstring list"
  publishedDate :: nat
  user :: "post_user option"

section \<open>The collection\<close>

text \<open>
  The collection is the list of its documents in insertion order. \<open>up\<close> says whether the
  server answers: every operation on a store that is not up rejects, which the handlers
  turn into the 500 outcome.
\<close>

record store =
  docs :: "post list"
  up :: bool

datatype store_error = ConnectionError | CastError | DuplicateKey | BadValue

record query =
  q_username :: "jsstring option"
  q_tags :: "jsstring option"

text \<open>
  A filter on \<open>user.username\<close> matches the documents whose embedded user has that name;
  a filter \<open>tags: t\<close> on an array path matches the documents whose array contains \<open>t\<close>.
\<close>

definition matches :: "query \<Rightarrow> post \<Rightarrow> bool" where
  "matches q p =
     ((case q_username q of
         None \<Rightarrow> True
       | Some n \<Rightarrow> (case user p of None \<Rightarrow> False | Some pu \<Rightarrow> username pu = n)) \<and>
      (case q_tags q of None \<Rightarrow> True | Some t \<Rightarrow> t \<in> set (tags p)))"

definition sort_desc :: "post list \<Rightarrow> post list" where
  "sort_desc ps = rev (sort_key oid ps)"

text \<open>
  \<open>Post.find(q).sort({_id: -1}).limit(n).skip(sk).lean().exec()\<close>: the builder calls
  set options of one query, and the server sorts, then skips, then limits, whatever the
  order the options were set in. A negative offset is rejected.
\<close>

definition Post_find :: "lib \<Rightarrow> store \<Rightarrow> query \<Rightarrow> nat \<Rightarrow> jsnum \<Rightarrow> store_error + post list" where
  "Post_find L db q n sk =
     (if \<not> up db then Inl ConnectionError
      else case sk of
             Num k \<Rightarrow>
               if k < 0 then Inl BadValue
               else Inr (take n (drop (nat k) (sort_desc (filter (matches q) (docs db)))))
           | NaN \<Rightarrow>
               (case skipNaN L of
                  None \<Rightarrow> Inl BadValue
                | Some k \<Rightarrow>
                    Inr (take n (drop k (sort_desc (filter (matches q) (docs db)))))))"

definition Post_countDocuments :: "store \<Rightarrow> query \<Rightarrow> store_error + nat" where
  "Post_countDocuments db q =
     (if \<not> up db then Inl ConnectionError
      else Inr (length (filter (matches q) (docs db))))"

definition Post_findById :: "lib \<Rightarrow> store \<Rightarrow> jsstring \<Rightarrow> store_error + post option" where
  "Post_findById L db idt =
     (if \<not> up db then Inl ConnectionError
      else case castObjectId L idt of
             None \<Rightarrow> Inl CastError
           | Some i \<Rightarrow> Inr (find (\<lambda>p. oid p = i) (docs db)))"

fun update_first :: "objectid \<Rightarrow> (post \<Rightarrow> post) \<Rightarrow> post list \<Rightarrow> post list" where
  "update_first i f [] = []"
| "update_first i f (p # ps) = (if oid p = i then f p # ps else p # update_first i f ps)"

fun remove_first :: "objectid \<Rightarrow> post list \<Rightarrow> post list" where
  "remove_first i [] = []"
| "remove_first i (p # ps) = (if oid p = i then ps else p # remove_first i ps)"

text \<open>
  \<open>findByIdAndUpdate(i, u, {new: true})\<close> changes the first document with that id and
  resolves to the changed document, or to \<open>null\<close> (\<open>None\<close>) with no change and no insert
  when there is none.
\<close>

definition Post_findByIdAndUpdate ::
  "store \<Rightarrow> objectid \<Rightarrow> (post \<Rightarrow> post) \<Rightarrow> store_error + (post option \<times> store)" where
  "Post_findByIdAndUpdate db i f =
     (if \<not> up db then Inl ConnectionError
      else Inr (map_option f (find (\<lambda>p. oid p = i) (docs db)),
                db\<lparr>docs := update_first i f (docs db)\<rparr>))"

definition Post_findByIdAndRemove ::
  "lib \<Rightarrow> store \<Rightarrow> jsstring \<Rightarrow> store_error + (post option \<times> store)" where
  "Post_findByIdAndRemove L db idt =
     (if \<not> up db then Inl ConnectionError
      else case castObjectId L idt of
             None \<Rightarrow> Inl CastError
           | Some i \<Rightarrow> Inr (find (\<lambda>p. oid p = i) (docs db),
                            db\<lparr>docs := remove_first i (docs db)\<rparr>))"

text \<open>\<open>save\<close> of a new document inserts it; the unique index on \<open>_id\<close> rejects a duplicate.\<close>

definition Post_save :: "store \<Rightarrow> post \<Rightarrow> store_error + store" where
  "Post_save db p =
     (if \<not> up db then Inl ConnectionError
      else if oid p \<in> set (map oid (docs db)) then Inl DuplicateKey
      else Inr (db\<lparr>docs := docs db @ [p]\<rparr>))"

section \<open>Request validation\<close>

text \<open>
  The request body is an object with at most the keys \<open>title\<close>, \<open>body\<close> and \<open>tags\<close>; a
  key holds a string (an array of strings for \<open>tags\<close>) or is absent. Values of another
  type and other keys, which the validator rejects, are not represented. By the defaults
  of the package, \<open>Joi.string()\<close> accepts a string other than the empty one (the empty
  string needs \<open>allow\<close>), \<open>Joi.array().items(Joi.string())\<close> accepts an array whose
  items it all accepts, \<open>required()\<close> rejects an absent key, and \<open>validate\<close> reports
  the first failure in the order of the keys.
\<close>

record payload =
  p_title :: "jsstring option"
  p_body :: "jsstring option"
  p_tags :: "jsstring list option"

datatype joi_error = any_required string | string_empty string | item_empty string nat

definition Joi_string :: "bool \<Rightarrow> string \<Rightarrow> jsstring option \<Rightarrow> joi_error option" where
  "Joi_string required key v =
     (case v of
        None \<Rightarrow> if required then Some (any_required key) else None
      | Some s \<Rightarrow> if s = [] then Some (string_empty key) else None)"

fun first_empty :: "nat \<Rightarrow> jsstring list \<Rightarrow> nat option" where
  "first_empty n [] = None"
| "first_empty n (x # xs) = (if x = [] then Some n else first_empty (Suc n) xs)"

definition Joi_array_of_string ::
  "bool \<Rightarrow> string \<Rightarrow> jsstring list option \<Rightarrow> joi_error option" where
  "Joi_array_of_string required key v =
     (case v of
        None \<Rightarrow> if required then Some (any_required key) else None
      | Some xs \<Rightarrow> map_option (item_empty key) (first_empty 0 xs))"

fun first_error :: "joi_error option list \<Rightarrow> joi_error option" where
  "first_error [] = None"
| "first_error (None # es) = first_error es"
| "first_error (Some e # es) = Some e"

definition write_schema :: "payload \<Rightarrow> joi_error option" where
  "write_schema p =
     first_error [Joi_string True ''title'' (p_title p),
                  Joi_string True ''body'' (p_body p),
                  Joi_array_of_string True ''tags'' (p_tags p)]"

definition update_schema :: "payload \<Rightarrow> joi_error option" where
  "update_schema p =
     first_error [Joi_string False ''title'' (p_title p),
                  Joi_string False ''body'' (p_body p),
                  Joi_array_of_string False ''tags'' (p_tags p)]"

section \<open>api/posts/posts.ctrl.js\<close>

subsection \<open>The request context\<close>

text \<open>
  \<open>ctx\<close> carries the path parameter, the query string (each parameter a string, or
  absent), the request body, the state the middlewares share, and the response: its
  status (404 until something sets it), its body and the \<open>Last-Page\<close> header.
  Assigning a body sets the status 200 when none was set, and 204 when the body is
  \<open>null\<close>; a thrown error is answered with 500. \<open>env\<close> holds what a handler reads from its
  surroundings: the value of \<open>Math.floor(Math.random() * imgArr.length)\<close>, the
  \<open>ObjectId\<close> that \<open>new Post\<close> generates, and \<open>Date.now\<close>.
\<close>

record auth_user =
  auth_id :: jsstring
  auth_username :: jsstring

datatype resp_body = NoBody | PostBody post | PostList "post list" | ErrorBody joi_error

record ctx =
  params_id :: jsstring
  query_page :: "jsstring option"
  query_tag :: "jsstring option"
  query_username :: "jsstring option"
  request_body :: payload
  state_user :: "auth_user option"
  state_post :: "post option"
  status :: nat
  response :: resp_body
  last_page :: "nat option"

record env =
  random_index :: nat
  new_oid :: objectid
  date_now :: nat

type_synonym handler = "ctx \<times> store \<Rightarrow> ctx \<times> store"

subsection \<open>Lookup and ownership\<close>

definition getPostById :: "lib \<Rightarrow> handler \<Rightarrow> handler" where
  "getPostById L next = (\<lambda>(c, db).
     if \<not> isValid L (params_id c) then (c\<lparr>status := 400\<rparr>, db)
     else case Post_findById L db (params_id c) of
            Inl e \<Rightarrow> (c\<lparr>status := 500\<rparr>, db)
          | Inr None \<Rightarrow> (c\<lparr>status := 404\<rparr>, db)
          | Inr (Some p) \<Rightarrow> next (c\<lparr>state_post := Some p\<rparr>, db))"

text \<open>
  Reading \<open>post.user._id\<close> or \<open>user._id\<close> of a value that is \<open>undefined\<close> throws a
  \<open>TypeError\<close>, which the server answers with 500.
\<close>

definition checkOwnPost :: "lib \<Rightarrow> handler \<Rightarrow> handler" where
  "checkOwnPost L next = (\<lambda>(c, db).
     case (state_user c, state_post c) of
       (Some u, Some p) \<Rightarrow>
         (case user p of
            None \<Rightarrow> (c\<lparr>status := 500\<rparr>, db)
          | Some pu \<Rightarrow>
              if toString L (user_id pu) \<noteq> auth_id u then (c\<lparr>status := 403\<rparr>, db)
              else next (c, db))
     | _ \<Rightarrow> (c\<lparr>status := 500\<rparr>, db))"

subsection \<open>Thumbnail extractor and excerpt builder\<close>

definition imgArr :: "jsstring list" where
  "imgArr = [js ''img1.jpg'', js ''img2.jpg'', js ''img3.jpg'', js ''img4.jpg'',
             js ''img5.jpg'']"

text \<open>An index outside the array reads \<open>undefined\<close>, which the concatenation spells out.\<close>

definition parseImageToBody :: "nat \<Rightarrow> jsstring option \<Rightarrow> jsstring" where
  \<open>parseImageToBody rnd b =
    (let imgSrc = js ''http://localhost:4000/'' @
                   (if rnd < length imgArr then imgArr ! rnd else js ''undefined'');
         image = js ''<img src="'' @ imgSrc @ js ''"/>''
     in case exec imgReg (String_of b) of None \<Rightarrow> image | Some m \<Rightarrow> m)\<close>

definition removeHtmlAndShorten :: "lib \<Rightarrow> jsstring option \<Rightarrow> jsstring" where
  "removeHtmlAndShorten L b =
    (let filtered = sanitizeHtml L b
           \<lparr>allowedTags = Some [js ''p''], allowedAttributes = None, allowedSchemes = None\<rparr>
     in if length filtered < 100 then filtered else take 100 filtered @ js ''...'')"

subsection \<open>write\<close>

text \<open>
  \<open>new Post\<close> casts the session's user id to an \<open>ObjectId\<close>; when the cast fails,
  \<open>save\<close> rejects (\<open>None\<close> here). A session without a user leaves \<open>user\<close> unset.
\<close>

definition cast_user :: "lib \<Rightarrow> auth_user option \<Rightarrow> post_user option option" where
  "cast_user L u =
     (case u of
        None \<Rightarrow> Some None
      | Some a \<Rightarrow>
          (case castObjectId L (auth_id a) of
             None \<Rightarrow> None
           | Some i \<Rightarrow> Some (Some \<lparr>user_id = i, username = auth_username a\<rparr>)))"

definition "write" :: "lib \<Rightarrow> env \<Rightarrow> handler" where
  "write L e = (\<lambda>(c, db).
     case write_schema (request_body c) of
       Some err \<Rightarrow> (c\<lparr>status := 400, response := ErrorBody err\<rparr>, db)
     | None \<Rightarrow>
         (case cast_user L (state_user c) of
            None \<Rightarrow> (c\<lparr>status := 500\<rparr>, db)
          | Some u \<Rightarrow>
              (let p = \<lparr> oid = new_oid e,
                         title = p_title (request_body c),
                         body = Some (sanitizeHtml L (p_body (request_body c)) sanitizeOption),
                         count = Some 0,
                         image_html = Some (parseImageToBody (random_index e)
                                              (p_body (request_body c))),
                         tags = (case p_tags (request_body c) of None \<Rightarrow> [] | Some ts \<Rightarrow> ts),
                         publishedDate = date_now e,
                         user = u \<rparr>
               in case Post_save db p of
                    Inl err \<Rightarrow> (c\<lparr>status := 500\<rparr>, db)
                  | Inr db' \<Rightarrow> (c\<lparr>status := 200, response := PostBody p\<rparr>, db'))))"

subsection \<open>list\<close>

definition list_query :: "ctx \<Rightarrow> query" where
  "list_query c =
     \<lparr> q_username = (if truthy (query_username c) then query_username c else None),
       q_tags = (if truthy (query_tag c) then query_tag c else None) \<rparr>"

definition list_page :: "ctx \<Rightarrow> jsnum" where
  "list_page c = parseInt (if truthy (query_page c) then String_of (query_page c) else js ''1'')"

text \<open>The \<open>try\<close> block of \<open>list\<close>, for the page number \<open>page\<close>.\<close>

definition list_try :: "lib \<Rightarrow> jsnum \<Rightarrow> handler" where
  "list_try L page = (\<lambda>(c, db).
     case Post_find L db (list_query c) 20 (num_mul (num_sub page 1) 20) of
       Inl err \<Rightarrow> (c\<lparr>status := 500\<rparr>, db)
     | Inr posts \<Rightarrow>
         (case Post_countDocuments db (list_query c) of
            Inl err \<Rightarrow> (c\<lparr>status := 500\<rparr>, db)
          | Inr postCount \<Rightarrow>
              (c\<lparr>last_page := Some (nat \<lceil>real postCount / 20\<rceil>),
                 status := 200,
                 response := PostList
                   (map (\<lambda>p. p\<lparr>body := Some (removeHtmlAndShorten L (body p))\<rparr>) posts)\<rparr>,
               db)))"

definition list :: "lib \<Rightarrow> handler" where
  "list L = (\<lambda>(c, db).
     if num_lt (list_page c) 1 then (c\<lparr>status := 400\<rparr>, db)
     else list_try L (list_page c) (c, db))"

subsection \<open>read\<close>

text \<open>
  The update document is the looked-up document itself, so the stored document becomes
  \<open>nextData\<close>. \<open>nextData.count + 1\<close> is an addition of doubles. A \<open>null\<close> result as
  the response body gives the status 204.
\<close>

definition next_count :: "post \<Rightarrow> post" where
  "next_count nextData =
     (let d = (if count nextData = None then nextData\<lparr>count := Some 0\<rparr> else nextData)
      in case count d of
           None \<Rightarrow> d
         | Some k \<Rightarrow> if k \<ge> 0 then d\<lparr>count := Some (num_add1 k)\<rparr> else d)"

definition read :: "lib \<Rightarrow> handler" where
  "read L = (\<lambda>(c, db).
     case state_post c of
       None \<Rightarrow> (c\<lparr>status := 500\<rparr>, db)
     | Some p \<Rightarrow>
         (let nextData = next_count p
          in case Post_findByIdAndUpdate db (oid nextData) (\<lambda>_. nextData) of
               Inl err \<Rightarrow> (c\<lparr>status := 500\<rparr>, db)
             | Inr (None, db') \<Rightarrow> (c\<lparr>status := 204, response := NoBody\<rparr>, db')
             | Inr (Some q, db') \<Rightarrow> (c\<lparr>status := 200, response := PostBody q\<rparr>, db')))"

subsection \<open>remove\<close>

definition remove :: "lib \<Rightarrow> handler" where
  "remove L = (\<lambda>(c, db).
     case Post_findByIdAndRemove L db (params_id c) of
       Inl err \<Rightarrow> (c\<lparr>status := 500\<rparr>, db)
     | Inr (post, db') \<Rightarrow> (c\<lparr>status := 204\<rparr>, db'))"

subsection \<open>update\<close>

text \<open>
  \<open>nextData\<close> is a copy of the request body with \<open>image\<close> added; the update sets the
  paths that \<open>nextData\<close> has and leaves the others.
\<close>

record update_doc =
  n_title :: "jsstring option"
  n_body :: "jsstring option"
  n_tags :: "jsstring list option"
  n_image :: jsstring

definition apply_update :: "update_doc \<Rightarrow> post \<Rightarrow> post" where
  "apply_update n p =
     p\<lparr> title := (case n_title n of None \<Rightarrow> title p | Some t \<Rightarrow> Some t),
        body := (case n_body n of None \<Rightarrow> body p | Some b \<Rightarrow> Some b),
        tags := (case n_tags n of None \<Rightarrow> tags p | Some ts \<Rightarrow> ts),
        image_html := Some (n_image n) \<rparr>"

definition nextData_of :: "lib \<Rightarrow> env \<Rightarrow> payload \<Rightarrow> update_doc" where
  "nextData_of L e b =
     \<lparr> n_title = p_title b,
       n_body = (if truthy (p_body b) then Some (sanitizeHtml L (p_body b) sanitizeOption)
                 else p_body b),
       n_tags = p_tags b,
       n_image = parseImageToBody (random_index e) (p_body b) \<rparr>"

definition update :: "lib \<Rightarrow> env \<Rightarrow> handler" where
  "update L e = (\<lambda>(c, db).
     case update_schema (request_body c) of
       Some err \<Rightarrow> (c\<lparr>status := 400, response := ErrorBody err\<rparr>, db)
     | None \<Rightarrow>
         (case castObjectId L (params_id c) of
            None \<Rightarrow> (c\<lparr>status := 500\<rparr>, db)
          | Some i \<Rightarrow>
              (case Post_findByIdAndUpdate db i
                      (apply_update (nextData_of L e (request_body c))) of
                 Inl err \<Rightarrow> (c\<lparr>status := 500\<rparr>, db)
               | Inr (None, db') \<Rightarrow> (c\<lparr>status := 404\<rparr>, db')
               | Inr (Some q, db') \<Rightarrow> (c\<lparr>status := 200, response := PostBody q\<rparr>, db'))))"

section \<open>api/posts/index.js\<close>

text \<open>
  Modelled from the spec: \<open>lib/checkLoggedIn\<close> is not among the sources. The spec gives
  it as a middleware that lets the request through with the authenticated identity in
  the state or rejects it; the rejection is the 401 outcome.
\<close>

definition checkLoggedIn :: "handler \<Rightarrow> handler" where
  "checkLoggedIn next = (\<lambda>(c, db).
     case state_user c of None \<Rightarrow> (c\<lparr>status := 401\<rparr>, db) | Some u \<Rightarrow> next (c, db))"

definition posts_get :: "lib \<Rightarrow> handler" where
  "posts_get L = list L"

definition posts_post :: "lib \<Rightarrow> env \<Rightarrow> handler" where
  "posts_post L e = checkLoggedIn (write L e)"

definition posts_get_id :: "lib \<Rightarrow> handler" where
  "posts_get_id L = getPostById L (read L)"

definition posts_delete :: "lib \<Rightarrow> handler" where
  "posts_delete L = checkLoggedIn (getPostById L (checkOwnPost L (remove L)))"

definition posts_patch :: "lib \<Rightarrow> env \<Rightarrow> handler" where
  "posts_patch L e = checkLoggedIn (getPostById L (checkOwnPost L (update L e)))"

section \<open>Stores the service builds\<close>

text \<open>
  The stores that requests to the five routes lead to, from the empty collection; the
  server may go down or come back between requests.
\<close>

inductive reachable :: "lib \<Rightarrow> store \<Rightarrow> bool" for L :: lib where
  empty: "reachable L \<lparr>docs = [], up = b\<rparr>"
| server: "reachable L db \<Longrightarrow> reachable L (db\<lparr>up := b\<rparr>)"
| get: "reachable L db \<Longrightarrow> reachable L (snd (posts_get L (c, db)))"
| post: "reachable L db \<Longrightarrow> reachable L (snd (posts_post L e (c, db)))"
| get_id: "reachable L db \<Longrightarrow> reachable L (snd (posts_get_id L (c, db)))"
| delete: "reachable L db \<Longrightarrow> reachable L (snd (posts_delete L (c, db)))"
| patch: "reachable L db \<Longrightarrow> reachable L (snd (posts_patch L e (c, db)))"

text \<open>A document whose view counter is present and not negative.\<close>

definition counted :: "post \<Rightarrow> bool" where
  "counted p = (case count p of None \<Rightarrow> False | Some k \<Rightarrow> 0 \<le> k)"

text \<open>A document whose view counter, if present, is below \<open>2^53\<close>, where adding 1 is exact.\<close>

definition count_exact :: "post \<Rightarrow> bool" where
  "count_exact p = (case count p of None \<Rightarrow> True | Some k \<Rightarrow> k < 2 ^ 53)"

section \<open>Tags of an HTML text\<close>

text \<open>
  The names of the tags a text opens or closes: after each \<open><\<close>, and a \<open>/\<close> if there
  is one, the longest run of letters and digits, when it is not empty. A text is within
  an allow-list when all these names are on it.
\<close>

definition is_name_char :: "16 word \<Rightarrow> bool" where
  "is_name_char c =
     ((0x30 \<le> unat c \<and> unat c \<le> 0x39) \<or> (0x41 \<le> unat c \<and> unat c \<le> 0x5A) \<or>
      (0x61 \<le> unat c \<and> unat c \<le> 0x7A))"

definition tag_name_at :: "jsstring \<Rightarrow> jsstring" where
  "tag_name_at s =
     takeWhile is_name_char
       (case s of [] \<Rightarrow> [] | x # r \<Rightarrow> if x = of_char CHR ''/'' then r else s)"

fun tag_names :: "jsstring \<Rightarrow> jsstring list" where
  "tag_names [] = []"
| "tag_names (c # s) =
     (if c = of_char CHR ''<'' \<and> tag_name_at s \<noteq> [] then tag_name_at s # tag_names s
      else tag_names s)"

definition within_allow_list :: "sanitize_options \<Rightarrow> jsstring \<Rightarrow> bool" where
  "within_allow_list opts s =
     (case allowedTags opts of None \<Rightarrow> True | Some ts \<Rightarrow> set (tag_names s) \<subseteq> set ts)"

text \<open>The contract of the sanitizer that the claims about saved bodies rest on.\<close>

definition honours_allow_list :: "lib \<Rightarrow> bool" where
  "honours_allow_list L = (\<forall>s opts. within_allow_list opts (sanitizeHtml L s opts))"

section \<open>A library instance and sample data\<close>

text \<open>
  One behaviour of the packages, for running the model on concrete requests: a sanitizer
  that escapes the \<open><\<close> of every tag that is not allowed and keeps the rest of the text,
  ids written as 24 hexadecimal digits, and a driver that reads a \<open>NaN\<close> offset as no
  offset.
\<close>

fun escape_tags :: "jsstring list \<Rightarrow> jsstring \<Rightarrow> jsstring" where
  "escape_tags allowed [] = []"
| "escape_tags allowed (c # s) =
     (if c = of_char CHR ''<'' \<and> tag_name_at s \<notin> set allowed
      then js ''&lt;'' @ escape_tags allowed s
      else c # escape_tags allowed s)"

definition demo_sanitizeHtml :: "jsstring option \<Rightarrow> sanitize_options \<Rightarrow> jsstring" where
  "demo_sanitizeHtml html opts =
     (case html of
        None \<Rightarrow> []
      | Some s \<Rightarrow> escape_tags (case allowedTags opts of None \<Rightarrow> [] | Some ts \<Rightarrow> ts) s)"

definition hex_digit :: "nat \<Rightarrow> 16 word" where
  "hex_digit d = of_nat (if d < 10 then 48 + d else 87 + d)"

fun hex_text :: "nat \<Rightarrow> nat \<Rightarrow> jsstring" where
  "hex_text 0 v = []"
| "hex_text (Suc k) v = hex_text k (v div 16) @ [hex_digit (v mod 16)]"

definition demo_toString :: "objectid \<Rightarrow> jsstring" where
  "demo_toString v = hex_text 24 v"

definition hex_val :: "16 word \<Rightarrow> nat option" where
  "hex_val c =
     (if 0x30 \<le> unat c \<and> unat c \<le> 0x39 then Some (unat c - 0x30)
      else if 0x61 \<le> unat c \<and> unat c \<le> 0x66 then Some (unat c - 0x57)
      else if 0x41 \<le> unat c \<and> unat c \<le> 0x46 then Some (unat c - 0x37)
      else None)"

fun hex_value :: "nat \<Rightarrow> jsstring \<Rightarrow> nat option" where
  "hex_value acc [] = Some acc"
| "hex_value acc (c # s) =
     (case hex_val c of None \<Rightarrow> None | Some d \<Rightarrow> hex_value (16 * acc + d) s)"

definition demo_castObjectId :: "jsstring \<Rightarrow> objectid option" where
  "demo_castObjectId s = (if length s = 24 then hex_value 0 s else None)"

definition demo_lib :: lib where
  "demo_lib =
     \<lparr> sanitizeHtml = demo_sanitizeHtml,
       isValid = (\<lambda>s. demo_castObjectId s \<noteq> None),
       castObjectId = demo_castObjectId,
       toString = demo_toString,
       skipNaN = Some 0 \<rparr>"

text \<open>A request before any middleware has run, two users, and a store with one post.\<close>

definition new_ctx :: ctx where
  "new_ctx =
     \<lparr> params_id = [], query_page = None, query_tag = None, query_username = None,
       request_body = \<lparr>p_title = None, p_body = None, p_tags = None\<rparr>,
       state_user = None, state_post = None, status = 404, response = NoBody,
       last_page = None \<rparr>"

definition ann :: auth_user where
  "ann = \<lparr>auth_id = js ''0000000000000000000000a1'', auth_username = js ''ann''\<rparr>"

definition bob :: auth_user where
  "bob = \<lparr>auth_id = js ''0000000000000000000000b2'', auth_username = js ''bob''\<rparr>"

definition demo_env :: env where
  "demo_env = \<lparr>random_index = 2, new_oid = 7, date_now = 1000\<rparr>"

definition demo_post :: post where
  \<open>demo_post =
     \<lparr> oid = 7, title = Some (js ''Hello''),
       body = Some (js ''<p><img src="http://a/b.png"></p>''), count = Some 0,
       image_html = Some (js ''<img src="http://a/b.png">''), tags = [js ''go''],
       publishedDate = 1000,
       user = Some \<lparr>user_id = 161, username = js ''ann''\<rparr> \<rparr>\<close>

definition demo_store :: store where
  "demo_store = \<lparr>docs = [demo_post], up = True\<rparr>"

definition id7 :: jsstring where
  "id7 = js ''000000000000000000000007''"

text \<open>
  Requests on that store: the creation of its post, an update that supplies only
  \<open>tags\<close>, a read; and a store of 25 posts tagged \<open>go\<close> with the first page of
  its listing.
\<close>

definition empty_store :: store where
  "empty_store = \<lparr>docs = [], up = True\<rparr>"

definition create_request :: ctx where
  \<open>create_request =
     new_ctx\<lparr>request_body :=
               \<lparr>p_title = Some (js ''Hello''),
                p_body = Some (js ''<p><img src="http://a/b.png"></p>''),
                p_tags = Some [js ''go'']\<rparr>,
             state_user := Some ann\<rparr>\<close>

definition tags_request :: "auth_user \<Rightarrow> ctx" where
  "tags_request u =
     new_ctx\<lparr>params_id := id7,
             request_body := \<lparr>p_title = None, p_body = None, p_tags = Some [js ''x'']\<rparr>,
             state_user := Some u\<rparr>"

definition read_request :: ctx where
  "read_request = new_ctx\<lparr>params_id := id7\<rparr>"

definition go_store :: store where
  "go_store = \<lparr>docs = map (\<lambda>k. demo_post\<lparr>oid := k\<rparr>) [1..<26], up = True\<rparr>"

definition go_request :: ctx where
  "go_request = new_ctx\<lparr>query_page := Some (js ''1''), query_tag := Some (js ''go'')\<rparr>"

definition go_request2 :: ctx where
  "go_request2 = new_ctx\<lparr>query_page := Some (js ''2''), query_tag := Some (js ''go'')\<rparr>"

text \<open>An update by the owner whose body holds another image tag than the stored body.\<close>

definition body_request :: ctx where
  \<open>body_request =
     new_ctx\<lparr>params_id := id7,
             request_body :=
               \<lparr>p_title = None,
                p_body = Some (js ''<p>new <img alt="d" src="http://c/d.png"> text</p>''),
                p_tags = None\<rparr>,
             state_user := Some ann\<rparr>\<close>

section \<open>Facts about the collection\<close>

lemma find_oid: "find (\<lambda>p. oid p = i) ps = Some p \<Longrightarrow> oid p = i"
  by (induction ps) (auto split: if_splits)

lemma find_mem: "find P ps = Some p \<Longrightarrow> p \<in> set ps"
  by (induction ps) (auto split: if_splits)

lemma find_update_first:
  "find (\<lambda>p. oid p = i) ps = Some p0 \<Longrightarrow> oid (f p0) = i \<Longrightarrow>
   find (\<lambda>p. oid p = i) (update_first i f ps) = Some (f p0)"
  by (induction ps) (auto split: if_splits)

lemma find_append_new:
  "oid p \<notin> oid ` set ps \<Longrightarrow> find (\<lambda>q. oid q = oid p) (ps @ [p]) = Some p"
  by (induction ps) auto

lemma remove_first_absent:
  "find (\<lambda>p. oid p = i) ps = None \<Longrightarrow> remove_first i ps = ps"
  by (induction ps) (auto split: if_splits)

lemma list_all_update_first:
  "list_all Q ps \<Longrightarrow> (\<And>p. Q p \<Longrightarrow> Q (f p)) \<Longrightarrow> list_all Q (update_first i f ps)"
  by (induction ps) auto

lemma list_all_remove_first: "list_all Q ps \<Longrightarrow> list_all Q (remove_first i ps)"
  by (induction ps) auto

section \<open>Listing\<close>

lemma last_page_div: "nat \<lceil>real n / 20\<rceil> = (n + 19) div 20"
proof -
  have "\<lceil>real n / 20\<rceil> = \<lceil>of_int (int n) / (of_int 20 :: real)\<rceil>" by simp
  also have "\<dots> = - (- int n div 20)" by (rule ceiling_divide_eq_div)
  finally have "\<lceil>real n / 20\<rceil> = - (- int n div 20)" .
  moreover have "- (- int n div 20) = int ((n + 19) div 20)" by (simp add: zdiv_int)
  ultimately show ?thesis by simp
qed

lemma sort_desc_sorted: "sorted_wrt (\<lambda>a b. oid b \<le> oid a) (sort_desc ps)"
proof -
  have "sorted_wrt (\<lambda>x y. oid x \<le> oid y) (sort_key oid ps)"
    using sorted_sort_key[of oid ps] by (simp only: sorted_map)
  then show ?thesis by (simp only: sort_desc_def sorted_wrt_rev)
qed

lemma set_sort_desc: "set (sort_desc ps) = set ps"
  by (simp add: sort_desc_def)

lemma length_sort_desc: "length (sort_desc ps) = length ps"
  by (simp add: sort_desc_def)

lemma sorted_wrt_take_drop: "sorted_wrt P xs \<Longrightarrow> sorted_wrt P (take n (drop k xs))"
  by simp

lemma unat_digit_char: "d < 10 \<Longrightarrow> unat (digit_char d) = 48 + d"
  unfolding digit_char_def unat_of_nat by simp

lemma digit_of_digit_char: "d < 10 \<Longrightarrow> digit_of (digit_char d) = Some d"
  by (simp add: digit_of_def unat_digit_char)

lemma digits_value_decimal:
  "\<forall>d\<in>set ds. d < 10 \<Longrightarrow>
   digits_value acc (map digit_char ds) = foldl (\<lambda>a d. 10 * a + d) acc ds"
  by (induction ds arbitrary: acc) (simp_all add: digit_of_digit_char)

lemma digit_char_not_white: "d < 10 \<Longrightarrow> \<not> is_white (digit_char d)"
proof
  assume d: "d < 10" and w: "is_white (digit_char d)"
  have "unat (digit_char d) \<in> unat ` set [0x9, 0xA, 0xB, 0xC, 0xD, 0x20, 0xA0, 0x1680, 0x2000, 0x2001,
     0x2002, 0x2003, 0x2004, 0x2005, 0x2006, 0x2007, 0x2008, 0x2009, 0x200A, 0x2028,
     0x2029, 0x202F, 0x205F, 0x3000, 0xFEFF :: 16 word]"
    using w unfolding is_white_def by (rule imageI)
  then show False
    using d by (simp add: unat_digit_char)
qed

lemma digit_char_not_sign:
  "d < 10 \<Longrightarrow> digit_char d \<noteq> of_char CHR ''-'' \<and> digit_char d \<noteq> of_char CHR ''+''"
proof -
  assume d: "d < 10"
  have "unat (digit_char d) \<noteq> unat (of_char CHR ''-'' :: 16 word)"
    "unat (digit_char d) \<noteq> unat (of_char CHR ''+'' :: 16 word)"
    using d by (simp_all add: unat_digit_char)
  then show ?thesis by auto
qed

lemma parseInt_decimal:
  assumes "ds \<noteq> []" and "\<forall>d\<in>set ds. d < 10"
  shows "parseInt (map digit_char ds) = Num (int (decimal_value ds))"
proof -
  obtain d r where ds: "ds = d # r" using assms(1) by (cases ds) auto
  then have d: "d < 10" using assms(2) by simp
  have "dropWhile is_white (map digit_char ds) = map digit_char ds"
    using ds digit_char_not_white[OF d] by simp
  then show ?thesis
    using ds digit_char_not_sign[OF d] digit_of_digit_char[OF d]
      digits_value_decimal[OF assms(2), of 0]
    by (simp add: parseInt_def decimal_value_def Let_def)
qed

lemma list_page_decimal:
  assumes "query_page c = Some (map digit_char ds)" and "ds \<noteq> []"
    and "\<forall>d\<in>set ds. d < 10"
  shows "list_page c = Num (int (decimal_value ds))"
  using assms(1,2) parseInt_decimal[OF assms(2,3)]
  by (simp add: list_page_def truthy_def String_of_def)

lemma list_ok:
  assumes "up db" and "list_page c = Num p" and "1 \<le> p"
  shows "list L (c, db) =
     (c\<lparr>last_page := Some ((length (filter (matches (list_query c)) (docs db)) + 19) div 20),
        status := 200,
        response := PostList
          (map (\<lambda>q. q\<lparr>body := Some (removeHtmlAndShorten L (body q))\<rparr>)
            (take 20 (drop (nat ((p - 1) * 20))
               (sort_desc (filter (matches (list_query c)) (docs db))))))\<rparr>,
      db)"
  using assms
  by (simp add: list_def list_try_def num_lt_def num_sub_def num_mul_def Post_find_def
      Post_countDocuments_def last_page_div)

lemma matches_list_query:
  "matches (list_query c) q \<longleftrightarrow>
     (\<forall>n. query_username c = Some n \<and> n \<noteq> [] \<longrightarrow>
          (\<exists>pu. user q = Some pu \<and> username pu = n)) \<and>
     (\<forall>t. query_tag c = Some t \<and> t \<noteq> [] \<longrightarrow> t \<in> set (tags q))"
  by (cases "query_username c"; cases "query_tag c"; cases "user q")
     (auto simp: matches_def list_query_def truthy_def)

lemma list_store: "snd (list L (c, db)) = db"
  by (simp add: list_def list_try_def split: sum.splits)

text \<open>
  Claim C1. For a page number \<open>p \<ge> 1\<close> and any tag and username filters, on a store
  that answers, \<open>list\<close> responds 200 with the posts at positions
  \<open>(p - 1) * 20\<close> to \<open>(p - 1) * 20 + 19\<close> of the matching posts sorted by
  descending id, each with its body replaced by the excerpt: at most 20 of them, all
  matching, in descending order of id. A post matches when it has the username that was
  asked for, if one was, and the tag that was asked for, if one was; a filter that is
  absent or empty excludes nothing. The page number is the one the request writes: a
  page text of decimal digits stands for the number it spells. \<open>Last-Page\<close> is the ceiling of the number of
  matching posts over 20, that is the least \<open>k\<close> with \<open>20 * k\<close> at least that
  number. The store is left as it was.
\<close>

theorem list_pagination:
  assumes "up db" and "list_page c = Num p" and "1 \<le> p"
  shows "\<exists>page matching.
     matching = filter (matches (list_query c)) (docs db) \<and>
     page = take 20 (drop (nat (p - 1) * 20) (sort_desc matching)) \<and>
     list L (c, db) =
       (c\<lparr>last_page := Some ((length matching + 19) div 20), status := 200,
          response := PostList
            (map (\<lambda>q. q\<lparr>body := Some (removeHtmlAndShorten L (body q))\<rparr>) page)\<rparr>,
        db) \<and>
     length page \<le> 20 \<and>
     set (sort_desc matching) = {q \<in> set (docs db). matches (list_query c) q} \<and>
     (\<forall>q. matches (list_query c) q \<longleftrightarrow>
        (\<forall>n. query_username c = Some n \<and> n \<noteq> [] \<longrightarrow>
             (\<exists>pu. user q = Some pu \<and> username pu = n)) \<and>
        (\<forall>t. query_tag c = Some t \<and> t \<noteq> [] \<longrightarrow> t \<in> set (tags q))) \<and>
     length (sort_desc matching) = length matching \<and>
     sorted_wrt (\<lambda>a b. oid b \<le> oid a) (sort_desc matching) \<and>
     sorted_wrt (\<lambda>a b. oid b \<le> oid a) page \<and>
     real ((length matching + 19) div 20) = of_int \<lceil>real (length matching) / 20\<rceil> \<and>
     length matching \<le> 20 * ((length matching + 19) div 20) \<and>
     20 * ((length matching + 19) div 20) < length matching + 20 \<and>
     (\<forall>ds. query_page c = Some (map digit_char ds) \<and> ds \<noteq> [] \<and> (\<forall>d\<in>set ds. d < 10) \<longrightarrow>
           p = int (decimal_value ds))"
proof -
  let ?m = "filter (matches (list_query c)) (docs db)"
  have pd: "\<forall>ds. query_page c = Some (map digit_char ds) \<and> ds \<noteq> [] \<and>
                 (\<forall>d\<in>set ds. d < 10) \<longrightarrow> p = int (decimal_value ds)"
  proof (intro allI impI)
    fix ds
    assume "query_page c = Some (map digit_char ds) \<and> ds \<noteq> [] \<and> (\<forall>d\<in>set ds. d < 10)"
    then have "list_page c = Num (int (decimal_value ds))"
      using list_page_decimal[of c ds] by blast
    then show "p = int (decimal_value ds)"
      using assms(2) by simp
  qed
  have k: "nat ((p - 1) * 20) = nat (p - 1) * 20"
    using assms(3) by (simp add: nat_mult_distrib)
  have "0 \<le> \<lceil>real (length ?m) / 20\<rceil>"
    by simp
  then have "real (nat \<lceil>real (length ?m) / 20\<rceil>) = of_int \<lceil>real (length ?m) / 20\<rceil>"
    by simp
  then have c: "real ((length ?m + 19) div 20) = of_int \<lceil>real (length ?m) / 20\<rceil>"
    by (simp only: last_page_div)
  show ?thesis
    apply (rule exI[of _ "take 20 (drop (nat (p - 1) * 20) (sort_desc ?m))"])
    apply (rule exI[of _ ?m])
    apply (intro conjI)
               apply (rule refl)
              apply (rule refl)
             apply (simp only: list_ok[OF assms] k)
            apply simp
           apply (simp add: set_sort_desc)
          apply (intro allI, rule matches_list_query)
         apply (rule length_sort_desc)
        apply (rule sort_desc_sorted)
       apply (rule sorted_wrt_take_drop[OF sort_desc_sorted])
       apply (rule c)
      apply arith
     apply arith
    apply (rule pd)
    done
qed

text \<open>
  On the store of 25 posts tagged \<open>go\<close>, page 1 of the tag \<open>go\<close> holds the 20
  posts with the ids 25 down to 6 and page 2 the 5 posts with the ids 5 down to 1;
  \<open>Last-Page\<close> is 2 on both.
\<close>

theorem list_pagination_witness:
  "up go_store \<and> list_page go_request = Num 1 \<and>
   status (fst (list demo_lib (go_request, go_store))) = 200 \<and>
   last_page (fst (list demo_lib (go_request, go_store))) = Some 2 \<and>
   (\<exists>ps. response (fst (list demo_lib (go_request, go_store))) = PostList ps \<and>
         length ps = 20 \<and> map oid ps = rev [6..<26]) \<and>
   query_page go_request2 = Some (map digit_char [2]) \<and>
   list_page go_request2 = Num (int (decimal_value [2])) \<and> decimal_value [2] = 2 \<and>
   status (fst (list demo_lib (go_request2, go_store))) = 200 \<and>
   last_page (fst (list demo_lib (go_request2, go_store))) = Some 2 \<and>
   (\<exists>ps. response (fst (list demo_lib (go_request2, go_store))) = PostList ps \<and>
         length ps = 5 \<and> map oid ps = [5, 4, 3, 2, 1])"
proof -
  have u: "up go_store" by code_simp
  have pg: "list_page go_request = Num 1" by code_simp
  have n: "length (filter (matches (list_query go_request)) (docs go_store)) = 25"
    by code_simp
  have o: "map oid (take 20 (drop (nat (1 - 1) * 20)
             (sort_desc (filter (matches (list_query go_request)) (docs go_store))))) =
           rev [6..<26]"
    by code_simp
  from list_pagination[OF u pg, of demo_lib]
  obtain page matching where
    m: "matching = filter (matches (list_query go_request)) (docs go_store)" and
    p: "page = take 20 (drop (nat (1 - 1) * 20) (sort_desc matching))" and
    l: "list demo_lib (go_request, go_store) =
       (go_request\<lparr>last_page := Some ((length matching + 19) div 20), status := 200,
          response := PostList
            (map (\<lambda>q. q\<lparr>body := Some (removeHtmlAndShorten demo_lib (body q))\<rparr>) page)\<rparr>,
        go_store)"
    by auto
  have "map oid (map (\<lambda>q. q\<lparr>body := Some (removeHtmlAndShorten demo_lib (body q))\<rparr>) page) =
        rev [6..<26]"
    using o by (simp add: p m comp_def)
  moreover have "length page = 20"
    using n by (simp add: p m length_sort_desc)
  ultimately have first:
    "status (fst (list demo_lib (go_request, go_store))) = 200 \<and>
     last_page (fst (list demo_lib (go_request, go_store))) = Some 2 \<and>
     (\<exists>ps. response (fst (list demo_lib (go_request, go_store))) = PostList ps \<and>
         length ps = 20 \<and> map oid ps = rev [6..<26])"
    using l m n by simp
  have pg2: "list_page go_request2 = Num 2" by code_simp
  have q2: "query_page go_request2 = Some (map digit_char [2])" by code_simp
  have d2: "decimal_value [2] = 2" by code_simp
  have n2: "length (filter (matches (list_query go_request2)) (docs go_store)) = 25"
    by code_simp
  have o2: "map oid (take 20 (drop (nat (2 - 1) * 20)
             (sort_desc (filter (matches (list_query go_request2)) (docs go_store))))) =
           [5, 4, 3, 2, 1]"
    by code_simp
  from list_pagination[OF u pg2, of demo_lib]
  obtain page2 matching2 where
    m2: "matching2 = filter (matches (list_query go_request2)) (docs go_store)" and
    p2: "page2 = take 20 (drop (nat (2 - 1) * 20) (sort_desc matching2))" and
    l2: "list demo_lib (go_request2, go_store) =
       (go_request2\<lparr>last_page := Some ((length matching2 + 19) div 20), status := 200,
          response := PostList
            (map (\<lambda>q. q\<lparr>body := Some (removeHtmlAndShorten demo_lib (body q))\<rparr>) page2)\<rparr>,
        go_store)" and
    r2: "\<forall>ds. query_page go_request2 = Some (map digit_char ds) \<and> ds \<noteq> [] \<and>
              (\<forall>d\<in>set ds. d < 10) \<longrightarrow> (2::int) = int (decimal_value ds)"
    by auto
  have ids2: "map oid (map (\<lambda>q. q\<lparr>body := Some (removeHtmlAndShorten demo_lib (body q))\<rparr>)
        page2) = [5, 4, 3, 2, 1]"
    using o2 by (simp add: p2 m2 comp_def)
  have "length (map oid (map (\<lambda>q. q\<lparr>body := Some (removeHtmlAndShorten demo_lib (body q))\<rparr>)
        page2)) = 5"
    by (simp only: ids2) simp
  then have len2: "length page2 = 5" by simp
  have "(2::int) = int (decimal_value [2])"
    using r2 q2 by (auto simp del: of_nat_numeral)
  then have pd2: "list_page go_request2 = Num (int (decimal_value [2]))"
    using pg2 by simp
  have second:
    "status (fst (list demo_lib (go_request2, go_store))) = 200 \<and>
     last_page (fst (list demo_lib (go_request2, go_store))) = Some 2 \<and>
     (\<exists>ps. response (fst (list demo_lib (go_request2, go_store))) = PostList ps \<and>
         length ps = 5 \<and> map oid ps = [5, 4, 3, 2, 1])"
    using l2 m2 n2 ids2 len2 by simp
  show ?thesis
    using u pg first q2 pd2 d2 second by blast
qed

text \<open>
  Claim C10. \<open>list\<close> responds 400 exactly when the page text parses to an integer
  below 1. When it parses to \<open>NaN\<close> the guard does not fire: the offset
  \<open>(page - 1) * 20\<close> is \<open>NaN\<close> and the handler goes on to query the store with
  it, so the outcome is the query's (200, or 500 when the store rejects), never 400.
\<close>

theorem list_page_guard:
  "(status (fst (list L (c, db))) = 400 \<longleftrightarrow> (\<exists>k. list_page c = Num k \<and> k < 1)) \<and>
   (list_page c = NaN \<longrightarrow>
      num_mul (num_sub (list_page c) 1) 20 = NaN \<and>
      list L (c, db) =
        (case Post_find L db (list_query c) 20 NaN of
           Inl err \<Rightarrow> (c\<lparr>status := 500\<rparr>, db)
         | Inr posts \<Rightarrow>
             (case Post_countDocuments db (list_query c) of
                Inl err \<Rightarrow> (c\<lparr>status := 500\<rparr>, db)
              | Inr postCount \<Rightarrow>
                  (c\<lparr>last_page := Some (nat \<lceil>real postCount / 20\<rceil>), status := 200,
                     response := PostList
                       (map (\<lambda>p. p\<lparr>body := Some (removeHtmlAndShorten L (body p))\<rparr>)
                          posts)\<rparr>,
                   db))))"
proof (intro conjI impI)
  show "status (fst (list L (c, db))) = 400 \<longleftrightarrow> (\<exists>k. list_page c = Num k \<and> k < 1)"
    by (cases "list_page c")
       (simp_all add: list_def list_try_def num_lt_def split: sum.splits)
next
  assume "list_page c = NaN"
  then show "num_mul (num_sub (list_page c) 1) 20 = NaN"
    by (simp add: num_sub_def num_mul_def)
next
  assume "list_page c = NaN"
  then show "list L (c, db) =
        (case Post_find L db (list_query c) 20 NaN of
           Inl err \<Rightarrow> (c\<lparr>status := 500\<rparr>, db)
         | Inr posts \<Rightarrow>
             (case Post_countDocuments db (list_query c) of
                Inl err \<Rightarrow> (c\<lparr>status := 500\<rparr>, db)
              | Inr postCount \<Rightarrow>
                  (c\<lparr>last_page := Some (nat \<lceil>real postCount / 20\<rceil>), status := 200,
                     response := PostList
                       (map (\<lambda>p. p\<lparr>body := Some (removeHtmlAndShorten L (body p))\<rparr>)
                          posts)\<rparr>,
                   db)))"
    by (simp add: list_def list_try_def num_lt_def num_sub_def num_mul_def)
qed

text \<open>
  The page text \<open>abc\<close> parses to \<open>NaN\<close> and is not answered with 400; the page
  text \<open>0\<close> is.
\<close>

theorem list_page_guard_witness:
  "list_page (new_ctx\<lparr>query_page := Some (js ''abc'')\<rparr>) = NaN \<and>
   status (fst (list demo_lib (new_ctx\<lparr>query_page := Some (js ''abc'')\<rparr>, demo_store))) \<noteq> 400 \<and>
   list_page (new_ctx\<lparr>query_page := Some (js ''0'')\<rparr>) = Num 0 \<and>
   status (fst (list demo_lib (new_ctx\<lparr>query_page := Some (js ''0'')\<rparr>, demo_store))) = 400"
proof -
  have h: "list_page (new_ctx\<lparr>query_page := Some (js ''abc'')\<rparr>) = NaN"
    "list_page (new_ctx\<lparr>query_page := Some (js ''0'')\<rparr>) = Num 0"
    by code_simp+
  show ?thesis
    using list_page_guard[of demo_lib "new_ctx\<lparr>query_page := Some (js ''abc'')\<rparr>" demo_store,
        THEN conjunct1]
      list_page_guard[of demo_lib "new_ctx\<lparr>query_page := Some (js ''0'')\<rparr>" demo_store,
        THEN conjunct1] h
    by simp
qed

section \<open>Excerpts\<close>

text \<open>
  Claim C8. \<open>removeHtmlAndShorten\<close> passes the body to the sanitizer with \<open>p\<close> as
  the only allowed tag. A result shorter than 100 code units is returned as it is; any
  other is cut to its first 100 code units, followed by three dots, 103 code units in
  all. So a body of 150 code units that the sanitizer leaves as it is (only paragraph
  tags) gives 103 code units that end in the dots, and such a body of 50 code units is
  returned unchanged.
\<close>

theorem excerpt_builder:
  fixes L :: lib and s :: jsstring
  defines "filtered \<equiv> sanitizeHtml L (Some s)
             \<lparr>allowedTags = Some [js ''p''], allowedAttributes = None, allowedSchemes = None\<rparr>"
  shows "(length filtered < 100 \<longrightarrow> removeHtmlAndShorten L (Some s) = filtered) \<and>
         (100 \<le> length filtered \<longrightarrow>
            removeHtmlAndShorten L (Some s) = take 100 filtered @ js ''...'' \<and>
            length (removeHtmlAndShorten L (Some s)) = 103) \<and>
         (filtered = s \<and> length s = 150 \<longrightarrow>
            length (removeHtmlAndShorten L (Some s)) = 103 \<and>
            drop 100 (removeHtmlAndShorten L (Some s)) = js ''...'' \<and>
            take 100 (removeHtmlAndShorten L (Some s)) = take 100 s) \<and>
         (filtered = s \<and> length s = 50 \<longrightarrow> removeHtmlAndShorten L (Some s) = s)"
  by (auto simp: removeHtmlAndShorten_def filtered_def Let_def js_def)

text \<open>
  A paragraph of 143 letters is 150 code units long and is cut to 103; a paragraph of
  43 letters, 50 code units, comes back unchanged.
\<close>

theorem excerpt_builder_witness:
  "length (js ''<p>'' @ replicate 143 (of_char CHR ''a'') @ js ''</p>'') = 150 \<and>
   length (removeHtmlAndShorten demo_lib
     (Some (js ''<p>'' @ replicate 143 (of_char CHR ''a'') @ js ''</p>''))) = 103 \<and>
   drop 100 (removeHtmlAndShorten demo_lib
     (Some (js ''<p>'' @ replicate 143 (of_char CHR ''a'') @ js ''</p>''))) = js ''...'' \<and>
   removeHtmlAndShorten demo_lib
     (Some (js ''<p>'' @ replicate 43 (of_char CHR ''a'') @ js ''</p>'')) =
     js ''<p>'' @ replicate 43 (of_char CHR ''a'') @ js ''</p>''"
proof -
  have a: "sanitizeHtml demo_lib (Some (js ''<p>'' @ replicate 143 (of_char CHR ''a'') @ js ''</p>''))
             \<lparr>allowedTags = Some [js ''p''], allowedAttributes = None, allowedSchemes = None\<rparr> =
           js ''<p>'' @ replicate 143 (of_char CHR ''a'') @ js ''</p>''"
    "length (js ''<p>'' @ replicate 143 (of_char CHR ''a'') @ js ''</p>'') = 150"
    by code_simp+
  have b: "sanitizeHtml demo_lib (Some (js ''<p>'' @ replicate 43 (of_char CHR ''a'') @ js ''</p>''))
             \<lparr>allowedTags = Some [js ''p''], allowedAttributes = None, allowedSchemes = None\<rparr> =
           js ''<p>'' @ replicate 43 (of_char CHR ''a'') @ js ''</p>''"
    "length (js ''<p>'' @ replicate 43 (of_char CHR ''a'') @ js ''</p>'') = 50"
    by code_simp+
  show ?thesis
    using excerpt_builder[of demo_lib "js ''<p>'' @ replicate 143 (of_char CHR ''a'') @ js ''</p>''"]
      excerpt_builder[of demo_lib "js ''<p>'' @ replicate 43 (of_char CHR ''a'') @ js ''</p>''"]
      a b
    by (simp add: js_def)
qed

section \<open>Creating a post\<close>

lemma first_empty_none: "[] \<notin> set xs \<Longrightarrow> first_empty n xs = None"
  by (induction xs arbitrary: n) auto

lemma write_schema_accepts:
  assumes "p_title b = Some t" and "t \<noteq> []" and "p_body b = Some h" and "h \<noteq> []"
    and "p_tags b = Some ts" and "[] \<notin> set ts"
  shows "write_schema b = None"
  using assms
  by (simp add: write_schema_def Joi_string_def Joi_array_of_string_def first_empty_none)

lemma write_ok:
  assumes "p_title (request_body c) = Some t" and "t \<noteq> []"
    and "p_body (request_body c) = Some h" and "h \<noteq> []"
    and "p_tags (request_body c) = Some ts" and "[] \<notin> set ts"
    and "state_user c = Some u" and "castObjectId L (auth_id u) = Some ui"
    and "up db" and "new_oid e \<notin> oid ` set (docs db)"
  shows "write L e (c, db) =
     (c\<lparr>status := 200,
        response := PostBody
          \<lparr> oid = new_oid e, title = Some t,
            body = Some (sanitizeHtml L (Some h) sanitizeOption), count = Some 0,
            image_html = Some (parseImageToBody (random_index e) (Some h)), tags = ts,
            publishedDate = date_now e,
            user = Some \<lparr>user_id = ui, username = auth_username u\<rparr> \<rparr>\<rparr>,
      db\<lparr>docs := docs db @
          [\<lparr> oid = new_oid e, title = Some t,
             body = Some (sanitizeHtml L (Some h) sanitizeOption), count = Some 0,
             image_html = Some (parseImageToBody (random_index e) (Some h)), tags = ts,
             publishedDate = date_now e,
             user = Some \<lparr>user_id = ui, username = auth_username u\<rparr> \<rparr>]\<rparr>)"
  using assms write_schema_accepts[OF assms(1-6)]
  by (simp add: write_def cast_user_def Post_save_def Let_def)

lemma match_here_Lit_nonempty: "match_here (Lit a # r) s = Some t \<Longrightarrow> t \<noteq> []"
  by (cases s) (auto split: if_splits)

lemma exec_match: "exec re s = Some t \<Longrightarrow> \<exists>s'. match_here re s' = Some t"
  by (induction s) (auto split: option.splits)

lemma imgReg_Lit: "\<exists>r. imgReg = Lit (of_char CHR ''<'') # r"
  by (simp add: imgReg_def js_def)

lemma exec_imgReg_nonempty: "exec imgReg s = Some t \<Longrightarrow> t \<noteq> []"
proof -
  assume "exec imgReg s = Some t"
  then obtain s' where "match_here imgReg s' = Some t"
    using exec_match by blast
  moreover obtain r where "imgReg = Lit (of_char CHR ''<'') # r"
    using imgReg_Lit by blast
  ultimately show ?thesis
    using match_here_Lit_nonempty by metis
qed

lemma parseImageToBody_nonempty: "parseImageToBody rnd b \<noteq> []"
  by (auto simp: parseImageToBody_def Let_def js_def split: option.splits
      dest: exec_imgReg_nonempty)

lemma write_status_200:
  assumes "write L e (c, db) = (c1, db1)" and "status c1 = 200"
  shows "\<exists>p. c1 = c\<lparr>status := 200, response := PostBody p\<rparr> \<and>
              db1 = db\<lparr>docs := docs db @ [p]\<rparr> \<and> up db \<and>
              oid p = new_oid e \<and> count p = Some 0 \<and>
              new_oid e \<notin> oid ` set (docs db)"
  using assms
  by (auto simp: write_def Post_save_def Let_def split: option.splits if_splits)

lemma posts_post_status_200:
  assumes "posts_post L e (c, db) = (c1, db1)" and "status c1 = 200"
  shows "\<exists>p. c1 = c\<lparr>status := 200, response := PostBody p\<rparr> \<and>
              db1 = db\<lparr>docs := docs db @ [p]\<rparr> \<and> up db \<and>
              oid p = new_oid e \<and> count p = Some 0 \<and>
              new_oid e \<notin> oid ` set (docs db)"
proof (cases "state_user c")
  case None
  then show ?thesis using assms by (auto simp: posts_post_def checkLoggedIn_def)
next
  case (Some u)
  then have "write L e (c, db) = (c1, db1)"
    using assms(1) by (simp add: posts_post_def checkLoggedIn_def)
  then show ?thesis using assms(2) by (rule write_status_200)
qed

text \<open>
  The sample sanitizer honours its allow-list: escaping a \<open><\<close> does not change the
  tag name read after a \<open><\<close> that is kept.
\<close>

lemma tag_name_at_escape: "tag_name_at (escape_tags al s) = tag_name_at s"
proof -
  have t: "takeWhile is_name_char (escape_tags al r) = takeWhile is_name_char r" for r
    by (induction r) (auto simp: js_def is_name_char_def)
  show ?thesis
  proof (cases s)
    case Nil
    then show ?thesis by simp
  next
    case (Cons x r)
    then show ?thesis
      using t[of r] t[of "x # r"]
      by (auto simp: tag_name_at_def js_def is_name_char_def)
  qed
qed

lemma tag_names_escape: "set (tag_names (escape_tags al s)) \<subseteq> set al"
  by (induction s) (auto simp: tag_name_at_escape js_def)

lemma demo_lib_honours: "honours_allow_list demo_lib"
  by (auto simp: honours_allow_list_def within_allow_list_def demo_lib_def
      demo_sanitizeHtml_def split: option.splits dest: subsetD[OF tag_names_escape])

text \<open>
  Claim C2, as amended. The validator rejects an empty title, an empty body and an empty
  tag, so the claim holds for the inputs it accepts: when \<open>title\<close> and \<open>body\<close> are
  strings other than the empty one and \<open>tags\<close> is an array of such strings, the
  caller's id casts to an \<open>ObjectId\<close>, the store answers and the generated id is not
  in use, \<open>write\<close> responds 200 with the saved post, appended to the collection under
  the generated id. Its \<open>count\<close> is 0, its \<open>image\<close> is not empty, its \<open>user\<close>
  is the caller (the id as cast, and the username), and its body is what the sanitizer
  returns for the submitted body under \<open>sanitizeOption\<close>; with a sanitizer that
  honours its allow-list, the saved body has no tag outside the allow-list.
\<close>

theorem write_creates_post:
  assumes "p_title (request_body c) = Some t" and "t \<noteq> []"
    and "p_body (request_body c) = Some h" and "h \<noteq> []"
    and "p_tags (request_body c) = Some ts" and "[] \<notin> set ts"
    and "state_user c = Some u" and "castObjectId L (auth_id u) = Some ui"
    and "up db" and "new_oid e \<notin> oid ` set (docs db)"
  shows "\<exists>p img.
     write L e (c, db) = (c\<lparr>status := 200, response := PostBody p\<rparr>,
                          db\<lparr>docs := docs db @ [p]\<rparr>) \<and>
     oid p = new_oid e \<and> count p = Some 0 \<and>
     image_html p = Some img \<and> img \<noteq> [] \<and>
     user p = Some \<lparr>user_id = ui, username = auth_username u\<rparr> \<and>
     body p = Some (sanitizeHtml L (Some h) sanitizeOption) \<and>
     (honours_allow_list L \<longrightarrow>
        (\<exists>s. body p = Some s \<and> within_allow_list sanitizeOption s)) \<and>
     title p = Some t \<and> tags p = ts"
proof -
  let ?p = "\<lparr> oid = new_oid e, title = Some t,
            body = Some (sanitizeHtml L (Some h) sanitizeOption), count = Some 0,
            image_html = Some (parseImageToBody (random_index e) (Some h)), tags = ts,
            publishedDate = date_now e,
            user = Some \<lparr>user_id = ui, username = auth_username u\<rparr> \<rparr>"
  show ?thesis
    apply (rule exI[of _ ?p])
    apply (rule exI[of _ "parseImageToBody (random_index e) (Some h)"])
    apply (simp only: write_ok[OF assms])
    apply (simp add: parseImageToBody_nonempty honours_allow_list_def)
    done
qed

text \<open>
  The sample request creates the sample post in the empty store.
\<close>

theorem write_creates_post_witness:
  "honours_allow_list demo_lib \<and>
   write demo_lib demo_env (create_request, empty_store) =
     (create_request\<lparr>status := 200, response := PostBody demo_post\<rparr>, demo_store) \<and>
   count demo_post = Some 0 \<and>
   (\<exists>s. body demo_post = Some s \<and> within_allow_list sanitizeOption s)"
proof -
  have h: "p_title (request_body create_request) = Some (js ''Hello'')" "js ''Hello'' \<noteq> []"
    \<open>p_body (request_body create_request) = Some (js ''<p><img src="http://a/b.png"></p>'')\<close>
    \<open>js ''<p><img src="http://a/b.png"></p>'' \<noteq> []\<close>
    "p_tags (request_body create_request) = Some [js ''go'']" "[] \<notin> set [js ''go'']"
    "state_user create_request = Some ann" "castObjectId demo_lib (auth_id ann) = Some 161"
    "up empty_store" "new_oid demo_env \<notin> oid ` set (docs empty_store)"
    by code_simp+
  from write_creates_post[OF h] obtain p where
    w: "write demo_lib demo_env (create_request, empty_store) =
          (create_request\<lparr>status := 200, response := PostBody p\<rparr>,
           empty_store\<lparr>docs := docs empty_store @ [p]\<rparr>)" and
    c: "count p = Some 0" and
    a: "honours_allow_list demo_lib \<longrightarrow>
          (\<exists>s. body p = Some s \<and> within_allow_list sanitizeOption s)"
    by blast
  have e: "write demo_lib demo_env (create_request, empty_store) =
     (create_request\<lparr>status := 200, response := PostBody demo_post\<rparr>, demo_store)"
    by code_simp
  have "response (fst (write demo_lib demo_env (create_request, empty_store))) = PostBody p"
    using w by simp
  moreover have "response (fst (write demo_lib demo_env (create_request, empty_store))) =
      PostBody demo_post"
    using e by simp
  ultimately have "p = demo_post" by simp
  then show ?thesis
    using demo_lib_honours c a e by simp
qed

text \<open>
  Claim C2 as stated fails: a request whose title is the empty string, with a body and
  tags that are strings, is answered with 400 and the validator's error, and nothing is
  stored.
\<close>

theorem write_rejects_empty_title:
  \<open>write demo_lib demo_env
     (create_request\<lparr>request_body :=
         \<lparr>p_title = Some [], p_body = Some (js ''<p>x</p>''), p_tags = Some [js ''go'']\<rparr>\<rparr>,
      empty_store) =
   (create_request\<lparr>request_body :=
         \<lparr>p_title = Some [], p_body = Some (js ''<p>x</p>''), p_tags = Some [js ''go'']\<rparr>,
       status := 400, response := ErrorBody (string_empty ''title'')\<rparr>,
    empty_store)\<close>
  by code_simp

section \<open>Reading a post\<close>

lemma getPostById_found:
  assumes "isValid L (params_id c)" and "up db"
    and "castObjectId L (params_id c) = Some i"
    and "find (\<lambda>q. oid q = i) (docs db) = Some p"
  shows "getPostById L next (c, db) = next (c\<lparr>state_post := Some p\<rparr>, db)"
  using assms by (simp add: getPostById_def Post_findById_def)

lemma oid_next_count: "oid (next_count p) = oid p"
  by (simp add: next_count_def Let_def split: option.splits)

lemma num_add1_exact: "k < 2 ^ 53 \<Longrightarrow> num_add1 k = k + 1"
  by (simp add: num_add1_def)

lemma num_add1_at_2_53: "num_add1 (2 ^ 53) = 2 ^ 53"
  by (simp add: num_add1_def)

lemma num_add1_nonneg: "0 \<le> k \<Longrightarrow> 0 \<le> num_add1 k"
  by (simp add: num_add1_def)

lemma next_count_value:
  "count p = None \<or> counted p \<Longrightarrow> count_exact p \<Longrightarrow>
   next_count p = p\<lparr>count := Some ((case count p of None \<Rightarrow> 0 | Some k \<Rightarrow> k) + 1)\<rparr>"
  by (auto simp: next_count_def counted_def count_exact_def num_add1_exact Let_def
      split: option.splits)

lemma counted_next: "counted p \<Longrightarrow> counted (next_count p)"
  by (simp add: counted_def next_count_def num_add1_nonneg Let_def split: option.splits)

lemma read_found:
  assumes "up db" and "state_post c = Some p"
    and "find (\<lambda>q. oid q = oid p) (docs db) = Some p"
  shows "read L (c, db) =
           (c\<lparr>status := 200, response := PostBody (next_count p)\<rparr>,
            db\<lparr>docs := update_first (oid p) (\<lambda>_. next_count p) (docs db)\<rparr>)"
  using assms by (simp add: read_def Post_findByIdAndUpdate_def Let_def oid_next_count)

lemma get_id_found:
  assumes "up db" and "isValid L (params_id c)"
    and "castObjectId L (params_id c) = Some i"
    and "find (\<lambda>q. oid q = i) (docs db) = Some p"
  shows "posts_get_id L (c, db) =
           (c\<lparr>state_post := Some p, status := 200, response := PostBody (next_count p)\<rparr>,
            db\<lparr>docs := update_first i (\<lambda>_. next_count p) (docs db)\<rparr>)"
proof -
  have i: "oid p = i" using assms(4) by (rule find_oid)
  have "read L (c\<lparr>state_post := Some p\<rparr>, db) =
          (c\<lparr>state_post := Some p, status := 200, response := PostBody (next_count p)\<rparr>,
           db\<lparr>docs := update_first (oid p) (\<lambda>_. next_count p) (docs db)\<rparr>)"
    by (rule read_found) (simp_all add: assms i)
  then show ?thesis
    by (simp add: posts_get_id_def getPostById_found[OF assms(2,1,3,4)] i)
qed

text \<open>
  Every document of a store the service builds has a view counter that is present and
  not negative: \<open>write\<close> starts it at 0, \<open>read\<close> only adds to it, and \<open>update\<close>
  and \<open>remove\<close> do not touch it.
\<close>

lemma checkLoggedIn_preserves:
  "(\<And>c. P (snd (next (c, db)))) \<Longrightarrow> P db \<Longrightarrow> P (snd (checkLoggedIn next (c, db)))"
  by (simp add: checkLoggedIn_def split: option.splits)

lemma checkOwnPost_preserves:
  "(\<And>c. P (snd (next (c, db)))) \<Longrightarrow> P db \<Longrightarrow> P (snd (checkOwnPost L next (c, db)))"
  by (simp add: checkOwnPost_def split: option.splits)

lemma getPostById_preserves:
  "(\<And>c. P (snd (next (c, db)))) \<Longrightarrow> P db \<Longrightarrow> P (snd (getPostById L next (c, db)))"
  by (simp add: getPostById_def split: option.splits sum.splits)

lemma write_counted:
  "list_all counted (docs db) \<Longrightarrow> list_all counted (docs (snd (write L e (c, db))))"
  by (simp add: write_def Post_save_def counted_def Let_def split: option.splits)

lemma counted_apply_update: "counted p \<Longrightarrow> counted (apply_update n p)"
  by (simp add: counted_def apply_update_def)

lemma update_counted:
  "list_all counted (docs db) \<Longrightarrow> list_all counted (docs (snd (update L e (c, db))))"
  by (simp add: update_def Post_findByIdAndUpdate_def list_all_update_first
      counted_apply_update split: option.splits)

lemma remove_counted:
  "list_all counted (docs db) \<Longrightarrow> list_all counted (docs (snd (remove L (c, db))))"
  by (simp add: remove_def Post_findByIdAndRemove_def list_all_remove_first
      split: option.splits)

lemma read_counted:
  assumes "list_all counted (docs db)" and "state_post c = Some p" and "counted p"
  shows "list_all counted (docs (snd (read L (c, db))))"
proof -
  have "list_all counted (update_first (oid (next_count p)) (\<lambda>_. next_count p) (docs db))"
    using assms(1) by (rule list_all_update_first) (rule counted_next[OF assms(3)])
  then show ?thesis
    using assms(1,2)
    by (simp add: read_def Post_findByIdAndUpdate_def Let_def split: option.splits)
qed

lemma get_id_counted:
  assumes "list_all counted (docs db)"
  shows "list_all counted (docs (snd (posts_get_id L (c, db))))"
proof (cases "isValid L (params_id c)")
  case False
  then show ?thesis using assms by (simp add: posts_get_id_def getPostById_def)
next
  case True
  show ?thesis
  proof (cases "Post_findById L db (params_id c)")
    case (Inl err)
    then show ?thesis using assms True by (simp add: posts_get_id_def getPostById_def)
  next
    case (Inr r)
    show ?thesis
    proof (cases r)
      case None
      then show ?thesis
        using assms True Inr by (simp add: posts_get_id_def getPostById_def)
    next
      case (Some p)
      have "p \<in> set (docs db)"
        using Inr Some
        by (auto simp: Post_findById_def split: if_splits option.splits dest: find_mem)
      then have "counted p"
        using assms by (simp add: list_all_iff)
      then have "list_all counted (docs (snd (read L (c\<lparr>state_post := Some p\<rparr>, db))))"
        using assms by (intro read_counted[where p = p]) simp_all
      then show ?thesis
        using True Inr Some by (simp add: posts_get_id_def getPostById_def)
    qed
  qed
qed

lemma reachable_counted: "reachable L db \<Longrightarrow> list_all counted (docs db)"
proof (induction rule: reachable.induct)
  case (empty b)
  show ?case by simp
next
  case (server db b)
  then show ?case by simp
next
  case (get db c)
  then show ?case by (simp add: posts_get_def list_store)
next
  case (post db e c)
  show ?case
    unfolding posts_post_def
    by (rule checkLoggedIn_preserves[where P = "\<lambda>d. list_all counted (docs d)"])
       (simp_all add: write_counted post.IH)
next
  case (get_id db c)
  then show ?case by (simp add: get_id_counted)
next
  case (delete db c)
  show ?case
    unfolding posts_delete_def
    by (intro checkLoggedIn_preserves[where P = "\<lambda>d. list_all counted (docs d)"]
          getPostById_preserves[where P = "\<lambda>d. list_all counted (docs d)"]
          checkOwnPost_preserves[where P = "\<lambda>d. list_all counted (docs d)"])
       (simp_all add: remove_counted delete.IH)
next
  case (patch db e c)
  show ?case
    unfolding posts_patch_def
    by (intro checkLoggedIn_preserves[where P = "\<lambda>d. list_all counted (docs d)"]
          getPostById_preserves[where P = "\<lambda>d. list_all counted (docs d)"]
          checkOwnPost_preserves[where P = "\<lambda>d. list_all counted (docs d)"])
       (simp_all add: update_counted patch.IH)
qed

lemma read_general:
  assumes "up db" and "isValid L (params_id c)"
    and "castObjectId L (params_id c) = Some i"
    and "find (\<lambda>q. oid q = i) (docs db) = Some p"
    and "reachable L db \<or> count p = None \<or> counted p"
    and "count_exact p"
  shows "posts_get_id L (c, db) =
           (c\<lparr>state_post := Some p, status := 200,
              response := PostBody
                (p\<lparr>count := Some ((case count p of None \<Rightarrow> 0 | Some k \<Rightarrow> k) + 1)\<rparr>)\<rparr>,
            db\<lparr>docs := update_first i
                  (\<lambda>_. p\<lparr>count := Some ((case count p of None \<Rightarrow> 0 | Some k \<Rightarrow> k) + 1)\<rparr>)
                  (docs db)\<rparr>) \<and>
         find (\<lambda>q. oid q = i) (docs (snd (posts_get_id L (c, db)))) =
           Some (p\<lparr>count := Some ((case count p of None \<Rightarrow> 0 | Some k \<Rightarrow> k) + 1)\<rparr>)"
proof -
  have "count p = None \<or> counted p"
  proof (cases "reachable L db")
    case True
    then have "list_all counted (docs db)" by (rule reachable_counted)
    moreover have "p \<in> set (docs db)" using assms(4) by (rule find_mem)
    ultimately show ?thesis by (simp add: list_all_iff)
  next
    case False
    then show ?thesis using assms(5) by simp
  qed
  then have n: "next_count p =
      p\<lparr>count := Some ((case count p of None \<Rightarrow> 0 | Some k \<Rightarrow> k) + 1)\<rparr>"
    using assms(6) by (rule next_count_value)
  have i: "oid p = i" using assms(4) by (rule find_oid)
  have "find (\<lambda>q. oid q = i) (update_first i (\<lambda>_. next_count p) (docs db)) =
          Some (next_count p)"
    using assms(4) by (rule find_update_first) (simp add: oid_next_count i)
  then show ?thesis
    by (simp add: get_id_found[OF assms(1-4)] n[symmetric])
qed

lemma create_read_read:
  assumes "posts_post L e (c, db) = (c1, db1)" and "status c1 = 200"
    and "isValid L (params_id r2)" and "castObjectId L (params_id r2) = Some (new_oid e)"
    and "posts_get_id L (r2, db1) = (c2, db2)"
    and "isValid L (params_id r3)" and "castObjectId L (params_id r3) = Some (new_oid e)"
    and "posts_get_id L (r3, db2) = (c3, db3)"
  shows "\<exists>p. response c1 = PostBody p \<and> count p = Some 0 \<and>
             status c2 = 200 \<and> response c2 = PostBody (p\<lparr>count := Some 1\<rparr>) \<and>
             status c3 = 200 \<and> response c3 = PostBody (p\<lparr>count := Some 2\<rparr>) \<and>
             find (\<lambda>q. oid q = new_oid e) (docs db3) = Some (p\<lparr>count := Some 2\<rparr>)"
proof -
  obtain p where p: "c1 = c\<lparr>status := 200, response := PostBody p\<rparr>"
      "db1 = db\<lparr>docs := docs db @ [p]\<rparr>" "up db" "oid p = new_oid e" "count p = Some 0"
      "new_oid e \<notin> oid ` set (docs db)"
    using posts_post_status_200[OF assms(1,2)] by blast
  have f1: "find (\<lambda>q. oid q = new_oid e) (docs db1) = Some p"
    using find_append_new[of p "docs db"] p by simp
  have u1: "up db1" using p by simp
  have c0: "count p = None \<or> counted p" using p(5) by (simp add: counted_def)
  have x0: "count_exact p" using p(5) by (simp add: count_exact_def)
  have v1: "(case count p of None \<Rightarrow> 0 | Some k \<Rightarrow> k) + 1 = 1"
    using p(5) by simp
  note rg1 = read_general[OF u1 assms(3,4) f1 disjI2[OF c0] x0]
  have g1: "posts_get_id L (r2, db1) =
      (r2\<lparr>state_post := Some p, status := 200, response := PostBody (p\<lparr>count := Some 1\<rparr>)\<rparr>,
       db1\<lparr>docs := update_first (new_oid e) (\<lambda>_. p\<lparr>count := Some 1\<rparr>) (docs db1)\<rparr>)"
    using rg1[THEN conjunct1] by (simp only: v1)
  have h1: "find (\<lambda>q. oid q = new_oid e) (docs (snd (posts_get_id L (r2, db1)))) =
      Some (p\<lparr>count := Some 1\<rparr>)"
    using rg1[THEN conjunct2] by (simp only: v1)
  have d2: "db2 = snd (posts_get_id L (r2, db1))" using assms(5) by simp
  have f2: "find (\<lambda>q. oid q = new_oid e) (docs db2) = Some (p\<lparr>count := Some 1\<rparr>)"
    using h1 d2 by simp
  have u2: "up db2" using d2 g1 u1 by simp
  have c1: "count (p\<lparr>count := Some 1\<rparr>) = None \<or> counted (p\<lparr>count := Some 1\<rparr>)"
    by (simp add: counted_def)
  have x1: "count_exact (p\<lparr>count := Some 1\<rparr>)"
    by (simp add: count_exact_def)
  have v2: "p\<lparr>count := Some 1\<rparr>\<lparr>count :=
               Some ((case count (p\<lparr>count := Some 1\<rparr>) of None \<Rightarrow> 0 | Some k \<Rightarrow> k) + 1)\<rparr> =
             p\<lparr>count := Some 2\<rparr>"
    by simp
  note rg2 = read_general[OF u2 assms(6,7) f2 disjI2[OF c1] x1]
  have g2: "posts_get_id L (r3, db2) =
      (r3\<lparr>state_post := Some (p\<lparr>count := Some 1\<rparr>), status := 200,
          response := PostBody (p\<lparr>count := Some 2\<rparr>)\<rparr>,
       db2\<lparr>docs := update_first (new_oid e) (\<lambda>_. p\<lparr>count := Some 2\<rparr>) (docs db2)\<rparr>)"
    using rg2[THEN conjunct1] by (simp only: v2)
  have h2: "find (\<lambda>q. oid q = new_oid e) (docs (snd (posts_get_id L (r3, db2)))) =
      Some (p\<lparr>count := Some 2\<rparr>)"
    using rg2[THEN conjunct2] by (simp only: v2)
  have "c2 = r2\<lparr>state_post := Some p, status := 200,
                 response := PostBody (p\<lparr>count := Some 1\<rparr>)\<rparr>"
    using assms(5) g1 by simp
  moreover have "c3 = r3\<lparr>state_post := Some (p\<lparr>count := Some 1\<rparr>), status := 200,
          response := PostBody (p\<lparr>count := Some 2\<rparr>)\<rparr>"
    using assms(8) g2 by simp
  moreover have "find (\<lambda>q. oid q = new_oid e) (docs db3) = Some (p\<lparr>count := Some 2\<rparr>)"
    using h2 assms(8) by simp
  ultimately show ?thesis
    using p(1,5) by simp
qed

lemma demo_store_reachable: "reachable demo_lib demo_store"
proof -
  have "snd (posts_post demo_lib demo_env (create_request, \<lparr>docs = [], up = True\<rparr>)) =
        demo_store"
    by code_simp
  then show ?thesis
    using reachable.post[OF reachable.empty[of demo_lib True], of demo_env create_request]
    by simp
qed

text \<open>
  Claim C3. Reading a stored post by id, on a store that answers, adds exactly 1 to its
  view counter, an absent counter counting as 0: the response is 200 with the updated
  post, and the updated post is the one stored under that id afterwards. This holds for
  every post of a store the service builds, and for any stored post whose counter is
  absent or not negative, as long as the counter is below \<open>2^53\<close>, where the addition
  of doubles is exact. In particular, after a post is created, the first read by
  its id returns it with \<open>count = 1\<close> and the second with \<open>count = 2\<close>.
\<close>

theorem read_increments_count:
  "(\<forall>(c :: ctx) db i p.
      up db \<and> isValid L (params_id c) \<and> castObjectId L (params_id c) = Some i \<and>
      find (\<lambda>q. oid q = i) (docs db) = Some p \<and>
      (reachable L db \<or> count p = None \<or> counted p) \<and> count_exact p \<longrightarrow>
      posts_get_id L (c, db) =
        (c\<lparr>state_post := Some p, status := 200,
           response := PostBody
             (p\<lparr>count := Some ((case count p of None \<Rightarrow> 0 | Some k \<Rightarrow> k) + 1)\<rparr>)\<rparr>,
         db\<lparr>docs := update_first i
               (\<lambda>_. p\<lparr>count := Some ((case count p of None \<Rightarrow> 0 | Some k \<Rightarrow> k) + 1)\<rparr>)
               (docs db)\<rparr>) \<and>
      find (\<lambda>q. oid q = i) (docs (snd (posts_get_id L (c, db)))) =
        Some (p\<lparr>count := Some ((case count p of None \<Rightarrow> 0 | Some k \<Rightarrow> k) + 1)\<rparr>)) \<and>
   (\<forall>e (c :: ctx) db (c1 :: ctx) db1 (r2 :: ctx) (c2 :: ctx) db2 (r3 :: ctx) (c3 :: ctx) db3.
      posts_post L e (c, db) = (c1, db1) \<and> status c1 = 200 \<and>
      isValid L (params_id r2) \<and> castObjectId L (params_id r2) = Some (new_oid e) \<and>
      posts_get_id L (r2, db1) = (c2, db2) \<and>
      isValid L (params_id r3) \<and> castObjectId L (params_id r3) = Some (new_oid e) \<and>
      posts_get_id L (r3, db2) = (c3, db3) \<longrightarrow>
      (\<exists>p. response c1 = PostBody p \<and> count p = Some 0 \<and>
           status c2 = 200 \<and> response c2 = PostBody (p\<lparr>count := Some 1\<rparr>) \<and>
           status c3 = 200 \<and> response c3 = PostBody (p\<lparr>count := Some 2\<rparr>) \<and>
           find (\<lambda>q. oid q = new_oid e) (docs db3) = Some (p\<lparr>count := Some 2\<rparr>)))"
proof (intro conjI allI impI)
  fix c :: ctx and db i p
  assume "up db \<and> isValid L (params_id c) \<and> castObjectId L (params_id c) = Some i \<and>
      find (\<lambda>q. oid q = i) (docs db) = Some p \<and>
      (reachable L db \<or> count p = None \<or> counted p) \<and> count_exact p"
  then show "posts_get_id L (c, db) =
        (c\<lparr>state_post := Some p, status := 200,
           response := PostBody
             (p\<lparr>count := Some ((case count p of None \<Rightarrow> 0 | Some k \<Rightarrow> k) + 1)\<rparr>)\<rparr>,
         db\<lparr>docs := update_first i
               (\<lambda>_. p\<lparr>count := Some ((case count p of None \<Rightarrow> 0 | Some k \<Rightarrow> k) + 1)\<rparr>)
               (docs db)\<rparr>)"
    and "find (\<lambda>q. oid q = i) (docs (snd (posts_get_id L (c, db)))) =
        Some (p\<lparr>count := Some ((case count p of None \<Rightarrow> 0 | Some k \<Rightarrow> k) + 1)\<rparr>)"
    using read_general[of db L c i p] by blast+
next
  fix e and c :: ctx and db and c1 :: ctx and db1 and r2 :: ctx and c2 :: ctx and db2
    and r3 :: ctx and c3 :: ctx and db3
  assume "posts_post L e (c, db) = (c1, db1) \<and> status c1 = 200 \<and>
      isValid L (params_id r2) \<and> castObjectId L (params_id r2) = Some (new_oid e) \<and>
      posts_get_id L (r2, db1) = (c2, db2) \<and>
      isValid L (params_id r3) \<and> castObjectId L (params_id r3) = Some (new_oid e) \<and>
      posts_get_id L (r3, db2) = (c3, db3)"
  then show "\<exists>p. response c1 = PostBody p \<and> count p = Some 0 \<and>
           status c2 = 200 \<and> response c2 = PostBody (p\<lparr>count := Some 1\<rparr>) \<and>
           status c3 = 200 \<and> response c3 = PostBody (p\<lparr>count := Some 2\<rparr>) \<and>
           find (\<lambda>q. oid q = new_oid e) (docs db3) = Some (p\<lparr>count := Some 2\<rparr>)"
    using create_read_read[of L e c db c1 db1 r2 c2 db2 r3 c3 db3] by blast
qed

text \<open>
  The sample store is built by the sample creation; reading its post returns
  \<open>count = 1\<close>, reading it again \<open>count = 2\<close>.
\<close>

theorem read_increments_count_witness:
  "reachable demo_lib demo_store \<and>
   posts_post demo_lib demo_env (create_request, empty_store) =
     (create_request\<lparr>status := 200, response := PostBody demo_post\<rparr>, demo_store) \<and>
   count demo_post = Some 0 \<and> count_exact demo_post \<and>
   response (fst (posts_get_id demo_lib (read_request, demo_store))) =
     PostBody (demo_post\<lparr>count := Some 1\<rparr>) \<and>
   response (fst (posts_get_id demo_lib
       (read_request, snd (posts_get_id demo_lib (read_request, demo_store))))) =
     PostBody (demo_post\<lparr>count := Some 2\<rparr>)"
proof -
  have h: "up demo_store" "isValid demo_lib (params_id read_request)"
    "castObjectId demo_lib (params_id read_request) = Some 7"
    "find (\<lambda>q. oid q = 7) (docs demo_store) = Some demo_post"
    "count demo_post = Some 0" "new_oid demo_env = 7"
    by code_simp+
  have x: "count_exact demo_post"
    by (simp add: count_exact_def h(5))
  have cr: "posts_post demo_lib demo_env (create_request, empty_store) =
     (create_request\<lparr>status := 200, response := PostBody demo_post\<rparr>, demo_store)"
    by code_simp
  have "posts_get_id demo_lib (read_request, demo_store) =
        (read_request\<lparr>state_post := Some demo_post, status := 200,
           response := PostBody (demo_post\<lparr>count :=
             Some ((case count demo_post of None \<Rightarrow> 0 | Some k \<Rightarrow> k) + 1)\<rparr>)\<rparr>,
         demo_store\<lparr>docs := update_first 7
           (\<lambda>_. demo_post\<lparr>count :=
             Some ((case count demo_post of None \<Rightarrow> 0 | Some k \<Rightarrow> k) + 1)\<rparr>)
           (docs demo_store)\<rparr>)"
    using read_increments_count[of demo_lib, THEN conjunct1, rule_format,
        of demo_store read_request 7 demo_post] h x demo_store_reachable
    by blast
  then have r1: "response (fst (posts_get_id demo_lib (read_request, demo_store))) =
     PostBody (demo_post\<lparr>count := Some 1\<rparr>)"
    using h(5) by simp
  have "\<exists>p. response (create_request\<lparr>status := 200, response := PostBody demo_post\<rparr>) =
            PostBody p \<and> count p = Some 0 \<and>
          status (fst (posts_get_id demo_lib (read_request, demo_store))) = 200 \<and>
          response (fst (posts_get_id demo_lib (read_request, demo_store))) =
            PostBody (p\<lparr>count := Some 1\<rparr>) \<and>
          status (fst (posts_get_id demo_lib
            (read_request, snd (posts_get_id demo_lib (read_request, demo_store))))) = 200 \<and>
          response (fst (posts_get_id demo_lib
            (read_request, snd (posts_get_id demo_lib (read_request, demo_store))))) =
            PostBody (p\<lparr>count := Some 2\<rparr>) \<and>
          find (\<lambda>q. oid q = new_oid demo_env)
            (docs (snd (posts_get_id demo_lib
              (read_request, snd (posts_get_id demo_lib (read_request, demo_store)))))) =
            Some (p\<lparr>count := Some 2\<rparr>)"
    by (rule read_increments_count[of demo_lib, THEN conjunct2, rule_format,
          of demo_env create_request empty_store
            "create_request\<lparr>status := 200, response := PostBody demo_post\<rparr>" demo_store
            read_request "fst (posts_get_id demo_lib (read_request, demo_store))"
            "snd (posts_get_id demo_lib (read_request, demo_store))" read_request
            "fst (posts_get_id demo_lib
               (read_request, snd (posts_get_id demo_lib (read_request, demo_store))))"
            "snd (posts_get_id demo_lib
               (read_request, snd (posts_get_id demo_lib (read_request, demo_store))))"])
       (simp add: cr h)
  then have r2: "response (fst (posts_get_id demo_lib
       (read_request, snd (posts_get_id demo_lib (read_request, demo_store))))) =
     PostBody (demo_post\<lparr>count := Some 2\<rparr>)"
    by auto
  show ?thesis
    using demo_store_reachable cr h(5) x r1 r2 by simp
qed

section \<open>Ownership\<close>

text \<open>
  Claim C4. On the update and delete routes, when the text of the looked-up post's
  embedded user id differs from the requester's id, the response is 403 and the store is
  exactly as before: \<open>checkOwnPost\<close> returns without calling the handler after it,
  whatever that handler is.
\<close>

theorem not_owner_forbidden:
  assumes "state_user c = Some u"
    and "isValid L (params_id c)"
    and "Post_findById L db (params_id c) = Inr (Some p)"
    and "user p = Some pu"
    and "toString L (user_id pu) \<noteq> auth_id u"
  shows "checkLoggedIn (getPostById L (checkOwnPost L next)) (c, db) =
           (c\<lparr>state_post := Some p, status := 403\<rparr>, db) \<and>
         posts_patch L e (c, db) = (c\<lparr>state_post := Some p, status := 403\<rparr>, db) \<and>
         posts_delete L (c, db) = (c\<lparr>state_post := Some p, status := 403\<rparr>, db)"
  using assms
  by (simp add: posts_patch_def posts_delete_def checkLoggedIn_def getPostById_def
      checkOwnPost_def)

text \<open>
  Bob's update and delete requests for Ann's post are both answered with 403, and the
  store still holds the post.
\<close>

theorem not_owner_forbidden_witness:
  "toString demo_lib 161 \<noteq> auth_id bob \<and>
   posts_patch demo_lib demo_env (tags_request bob, demo_store) =
     (tags_request bob\<lparr>state_post := Some demo_post, status := 403\<rparr>, demo_store) \<and>
   posts_delete demo_lib (tags_request bob, demo_store) =
     (tags_request bob\<lparr>state_post := Some demo_post, status := 403\<rparr>, demo_store)"
proof -
  have h: "state_user (tags_request bob) = Some bob"
    "isValid demo_lib (params_id (tags_request bob))"
    "Post_findById demo_lib demo_store (params_id (tags_request bob)) = Inr (Some demo_post)"
    "user demo_post = Some \<lparr>user_id = 161, username = js ''ann''\<rparr>"
    "toString demo_lib (user_id \<lparr>user_id = 161, username = js ''ann''\<rparr>) \<noteq> auth_id bob"
    by code_simp+
  show ?thesis
    using not_owner_forbidden[OF h, of "remove demo_lib" demo_env] h(5) by simp
qed

section \<open>Updating a post\<close>

lemma match_here_Lits:
  "match_here (map Lit w @ r) (w @ s) = map_option ((@) w) (match_here r s)"
  by (induction w) (simp_all add: option.map_comp comp_def option.map_ident)

lemma match_here_tail:
  "g \<notin> set b \<Longrightarrow> match_here [StarNot g, Lit g] (b @ g # post) = Some (b @ [g])"
  by (induction b) auto

lemma match_here_Lits_inv:
  "match_here (map Lit k @ r) s = Some t \<Longrightarrow>
   \<exists>s' t'. s = k @ s' \<and> match_here r s' = Some t' \<and> t = k @ t'"
proof (induction k arbitrary: s t)
  case Nil
  then show ?case by simp
next
  case (Cons x k)
  then show ?case
    by (cases s) (auto split: if_splits)
qed

lemma prefix_before:
  "k @ s' = v @ g # post \<Longrightarrow> g \<notin> set k \<Longrightarrow> \<exists>v'. v = k @ v' \<and> s' = v' @ g # post"
proof (induction k arbitrary: v)
  case Nil
  then show ?case by simp
next
  case (Cons x k)
  then show ?case by (cases v) auto
qed

lemma star_keeps_match:
  "match_here P s \<noteq> None \<Longrightarrow> match_here (StarNot g # P) s \<noteq> None"
  by (cases s) (auto split: option.splits)

lemma star_skips:
  "g \<notin> set a \<Longrightarrow> match_here (StarNot g # P) s \<noteq> None \<Longrightarrow>
   match_here (StarNot g # P) (a @ s) \<noteq> None"
  by (induction a) (auto split: option.splits)

lemma star_value:
  assumes P: "\<And>v t. g \<notin> set v \<Longrightarrow> match_here P (v @ g # post) = Some t \<Longrightarrow> t = v @ [g]"
  shows "g \<notin> set u \<Longrightarrow> match_here (StarNot g # P) (u @ g # post) = Some t \<Longrightarrow>
         t = u @ [g]"
proof (induction u arbitrary: t)
  case Nil
  then show ?case using P[of "[]" t] by simp
next
  case (Cons x u)
  show ?case
  proof (cases "match_here (StarNot g # P) (u @ g # post)")
    case None
    then have "match_here P ((x # u) @ g # post) = Some t"
      using Cons.prems by (simp split: if_splits)
    then show ?thesis using P[of "x # u" t] Cons.prems(1) by blast
  next
    case (Some t')
    then have "t' = u @ [g]" using Cons.IH Cons.prems(1) by simp
    then show ?thesis using Cons.prems Some by (simp split: if_splits)
  qed
qed

lemma src_part_value:
  assumes "g \<notin> set k" and "g \<notin> set v"
    and "match_here (map Lit k @ [StarNot g, Lit g]) (v @ g # post) = Some t"
  shows "t = v @ [g]"
proof -
  obtain s' t' where s: "v @ g # post = k @ s'"
    and m: "match_here [StarNot g, Lit g] s' = Some t'" and t: "t = k @ t'"
    using match_here_Lits_inv[OF assms(3)] by blast
  obtain v' where v: "v = k @ v'" "s' = v' @ g # post"
    using prefix_before[OF s[symmetric] assms(1)] by blast
  have "g \<notin> set v'" using assms(2) v(1) by simp
  then have "t' = v' @ [g]" using m v(2) match_here_tail[of g v' post] by simp
  then show ?thesis using t v(1) by simp
qed

lemma img_tag_match:
  assumes "of_char CHR ''>'' \<notin> set a" and "of_char CHR ''>'' \<notin> set b"
  shows "match_here imgReg (js ''<img'' @ a @ js ''src='' @ b @ js ''>'' @ post) =
         Some (js ''<img'' @ a @ js ''src='' @ b @ js ''>'')"
proof -
  let ?g = "of_char CHR ''>'' :: 16 word"
  let ?P = "map Lit (js ''src='') @ [StarNot ?g, Lit ?g]"
  let ?u = "a @ js ''src='' @ b"
  have gk: "?g \<notin> set (js ''src='')" by (simp add: js_def)
  have gu: "?g \<notin> set ?u" using assms gk by simp
  have "match_here ?P ((js ''src='' @ b) @ ?g # post) \<noteq> None"
    using match_here_Lits[of "js ''src=''" "[StarNot ?g, Lit ?g]" "b @ ?g # post"]
      match_here_tail[OF assms(2), of post]
    by simp
  then have "match_here (StarNot ?g # ?P) ((js ''src='' @ b) @ ?g # post) \<noteq> None"
    by (rule star_keeps_match)
  then have "match_here (StarNot ?g # ?P) (a @ (js ''src='' @ b) @ ?g # post) \<noteq> None"
    using assms(1) by (rule star_skips[rotated])
  then obtain t where t: "match_here (StarNot ?g # ?P) (?u @ ?g # post) = Some t"
    by auto
  have "t = ?u @ [?g]"
    using gu t
    by (rule star_value[rotated 1]) (rule src_part_value[OF gk])
  then have "match_here (StarNot ?g # ?P) (?u @ ?g # post) = Some (?u @ [?g])"
    using t by simp
  moreover have "imgReg = map Lit (js ''<img'') @ (StarNot ?g # ?P)"
    by (simp add: imgReg_def)
  moreover have "js ''>'' = [?g]" by (simp add: js_def)
  ultimately show ?thesis
    using match_here_Lits[of "js ''<img''" "StarNot ?g # ?P" "?u @ ?g # post"]
    by simp
qed

lemma exec_of_match: "match_here re s = Some t \<Longrightarrow> exec re s = Some t"
  by (cases s) simp_all

lemma imgReg_needs_lt: "x \<noteq> of_char CHR ''<'' \<Longrightarrow> match_here imgReg (x # s) = None"
  by (simp add: imgReg_def js_def)

lemma imgReg_needs_i:
  "y \<noteq> of_char CHR ''i'' \<Longrightarrow> match_here imgReg (x # y # s) = None"
  by (simp add: imgReg_def js_def)

lemma exec_skips_text:
  "\<not> lt_i_in pre \<Longrightarrow> y \<noteq> of_char CHR ''i'' \<Longrightarrow>
   exec imgReg (pre @ y # s) = exec imgReg (y # s)"
proof (induction pre rule: lt_i_in.induct)
  case 1
  then show ?case by simp
next
  case (2 x)
  then show ?case by (simp add: imgReg_needs_i)
next
  case (3 x z r)
  then have "match_here imgReg (x # z # r @ y # s) = None"
    by (cases "x = of_char CHR ''<''") (simp_all add: imgReg_needs_i imgReg_needs_lt)
  then show ?case using 3 by simp
qed

lemma parseImageToBody_tag:
  assumes "\<not> lt_i_in pre"
    and "of_char CHR ''>'' \<notin> set a" and "of_char CHR ''>'' \<notin> set b"
  shows "parseImageToBody rnd
           (Some (pre @ js ''<img'' @ a @ js ''src='' @ b @ js ''>'' @ post)) =
         js ''<img'' @ a @ js ''src='' @ b @ js ''>''"
proof -
  let ?s = "js ''mg'' @ a @ js ''src='' @ b @ js ''>'' @ post"
  have e: "js ''<img'' @ a @ js ''src='' @ b @ js ''>'' @ post =
           of_char CHR ''<'' # of_char CHR ''i'' # ?s"
    by (simp add: js_def)
  have "(of_char CHR ''<'' :: 16 word) \<noteq> of_char CHR ''i''"
    by simp
  then have "exec imgReg (pre @ of_char CHR ''<'' # of_char CHR ''i'' # ?s) =
        exec imgReg (of_char CHR ''<'' # of_char CHR ''i'' # ?s)"
    using assms(1) by (rule exec_skips_text[rotated])
  also have "\<dots> = Some (js ''<img'' @ a @ js ''src='' @ b @ js ''>'')"
    using img_tag_match[OF assms(2,3), of post] unfolding e by (rule exec_of_match)
  finally show ?thesis
    by (simp add: parseImageToBody_def String_of_def Let_def e)
qed

lemma exec_String_undefined: "exec imgReg (js ''undefined'') = None"
  by (simp add: imgReg_def js_def)

lemma parseImageToBody_absent:
  \<open>parseImageToBody rnd None =
     js ''<img src="http://localhost:4000/'' @
     (if rnd < 5 then imgArr ! rnd else js ''undefined'') @ js ''"/>''\<close>
  by (simp add: parseImageToBody_def String_of_def exec_String_undefined)
     (simp add: imgArr_def js_def)

lemma exec_no_lt_i: "\<not> lt_i_in h \<Longrightarrow> exec imgReg h = None"
proof (induction h rule: lt_i_in.induct)
  case 1
  show ?case by (simp add: imgReg_def js_def)
next
  case (2 x)
  show ?case by (simp add: imgReg_def js_def)
next
  case (3 x y s)
  then have "match_here imgReg (x # y # s) = None"
    by (cases "x = of_char CHR ''<''") (simp_all add: imgReg_needs_i imgReg_needs_lt)
  then show ?case using 3 by simp
qed

lemma parseImageToBody_no_tag:
  \<open>\<not> lt_i_in h \<Longrightarrow>
   parseImageToBody rnd (Some h) =
     js ''<img src="http://localhost:4000/'' @
     (if rnd < 5 then imgArr ! rnd else js ''undefined'') @ js ''"/>''\<close>
  by (simp add: parseImageToBody_def String_of_def exec_no_lt_i)
     (simp add: imgArr_def js_def)

lemma update_ok:
  assumes "update_schema (request_body c) = None" and "up db"
    and "castObjectId L (params_id c) = Some i"
    and "find (\<lambda>p. oid p = i) (docs db) = Some p0"
  shows "update L e (c, db) =
           (c\<lparr>status := 200,
              response := PostBody (apply_update (nextData_of L e (request_body c)) p0)\<rparr>,
            db\<lparr>docs := update_first i (apply_update (nextData_of L e (request_body c)))
                         (docs db)\<rparr>)"
  using assms by (simp add: update_def Post_findByIdAndUpdate_def)

lemma oid_apply_update: "oid (apply_update n p) = oid p"
  by (simp add: apply_update_def)

text \<open>
  Claim C5. For an update the validator accepts, of a post that exists on a store that
  answers, the stored \<open>image\<close> becomes the thumbnail extracted from the \<open>body\<close> of
  the request, whatever the stored body is. When that body holds an image tag with a
  \<open>src=\<close> (after a text in which no \<open><\<close> is followed by \<open>i\<close>), the stored image is
  that tag, up to its first \<open>>\<close>; when no \<open><\<close> of it is followed by \<open>i\<close>, it is the
  fallback tag. When the request has no \<open>body\<close>, the extractor runs on \<open>undefined\<close>,
  finds no image tag and returns the fallback tag for the random index, while the
  stored body stays as it was.
\<close>

theorem update_image_from_payload:
  assumes "update_schema (request_body c) = None" and "up db"
    and "castObjectId L (params_id c) = Some i"
    and "find (\<lambda>p. oid p = i) (docs db) = Some p0"
  shows \<open>\<exists>q db'. update L e (c, db) = (c\<lparr>status := 200, response := PostBody q\<rparr>, db') \<and>
           find (\<lambda>p. oid p = i) (docs db') = Some q \<and>
           image_html q =
             Some (parseImageToBody (random_index e) (p_body (request_body c))) \<and>
           (p_body (request_body c) = None \<longrightarrow>
              body q = body p0 \<and>
              image_html q = Some (js ''<img src="http://localhost:4000/'' @
                (if random_index e < 5 then imgArr ! random_index e else js ''undefined'')
                @ js ''"/>'')) \<and>
           (\<forall>pre a b post.
              p_body (request_body c) =
                Some (pre @ js ''<img'' @ a @ js ''src='' @ b @ js ''>'' @ post) \<and>
              \<not> lt_i_in pre \<and> of_char CHR ''>'' \<notin> set a \<and> of_char CHR ''>'' \<notin> set b \<longrightarrow>
              image_html q = Some (js ''<img'' @ a @ js ''src='' @ b @ js ''>'')) \<and>
           (\<forall>h. p_body (request_body c) = Some h \<and> \<not> lt_i_in h \<longrightarrow>
              image_html q = Some (js ''<img src="http://localhost:4000/'' @
                (if random_index e < 5 then imgArr ! random_index e else js ''undefined'')
                @ js ''"/>''))\<close>
proof -
  let ?f = "apply_update (nextData_of L e (request_body c))"
  have "oid (?f p0) = i"
    using find_oid[OF assms(4)] by (simp add: oid_apply_update)
  then have found: "find (\<lambda>p. oid p = i) (update_first i ?f (docs db)) = Some (?f p0)"
    using assms(4) by (rule find_update_first[rotated])
  have img: "image_html (?f p0) =
      Some (parseImageToBody (random_index e) (p_body (request_body c)))"
    by (simp add: apply_update_def nextData_of_def)
  have bdy: "p_body (request_body c) = None \<longrightarrow> body (?f p0) = body p0"
    by (simp add: apply_update_def nextData_of_def truthy_def)
  have absent: \<open>p_body (request_body c) = None \<longrightarrow>
      image_html (?f p0) = Some (js ''<img src="http://localhost:4000/'' @
                (if random_index e < 5 then imgArr ! random_index e else js ''undefined'')
                @ js ''"/>'')\<close>
    using img parseImageToBody_absent[of "random_index e"] by simp
  have tag: "\<forall>pre a b post.
      p_body (request_body c) =
        Some (pre @ js ''<img'' @ a @ js ''src='' @ b @ js ''>'' @ post) \<and>
      \<not> lt_i_in pre \<and> of_char CHR ''>'' \<notin> set a \<and> of_char CHR ''>'' \<notin> set b \<longrightarrow>
      image_html (?f p0) = Some (js ''<img'' @ a @ js ''src='' @ b @ js ''>'')"
    using img parseImageToBody_tag by simp
  have none: \<open>\<forall>h. p_body (request_body c) = Some h \<and> \<not> lt_i_in h \<longrightarrow>
      image_html (?f p0) = Some (js ''<img src="http://localhost:4000/'' @
                (if random_index e < 5 then imgArr ! random_index e else js ''undefined'')
                @ js ''"/>'')\<close>
    using img parseImageToBody_no_tag by simp
  show ?thesis
    apply (rule exI[of _ "?f p0"])
    apply (rule exI[of _ "db\<lparr>docs := update_first i ?f (docs db)\<rparr>"])
    apply (intro conjI)
         apply (rule update_ok[OF assms])
        apply (simp add: found)
       apply (rule img)
      apply (use bdy absent in blast)
     apply (rule tag)
    apply (rule none)
    done
qed

text \<open>
  An update of the sample post that supplies only \<open>tags\<close> keeps its body and sets
  its image to the fallback tag of index 2. An update whose body holds the tag of
  \<open>d.png\<close> sets the image to that tag, although the stored body holds the tag of
  \<open>b.png\<close>.
\<close>

theorem update_image_from_payload_witness:
  \<open>update_schema (request_body (tags_request ann)) = None \<and>
   p_body (request_body (tags_request ann)) = None \<and>
   body demo_post = Some (js ''<p><img src="http://a/b.png"></p>'') \<and>
   (\<exists>q. response (fst (update demo_lib demo_env (tags_request ann, demo_store))) =
           PostBody q \<and>
        body q = body demo_post \<and>
        image_html q = Some (js ''<img src="http://localhost:4000/img3.jpg"/>'')) \<and>
   update_schema (request_body body_request) = None \<and>
   p_body (request_body body_request) =
     Some (js ''<p>new <img alt="d" src="http://c/d.png"> text</p>'') \<and>
   (\<exists>q. response (fst (update demo_lib demo_env (body_request, demo_store))) =
           PostBody q \<and>
        image_html q = Some (js ''<img alt="d" src="http://c/d.png">''))\<close>
proof -
  have h: "update_schema (request_body (tags_request ann)) = None" "up demo_store"
    "castObjectId demo_lib (params_id (tags_request ann)) = Some 7"
    "find (\<lambda>p. oid p = 7) (docs demo_store) = Some demo_post"
    by code_simp+
  have b: "p_body (request_body (tags_request ann)) = None"
    \<open>body demo_post = Some (js ''<p><img src="http://a/b.png"></p>'')\<close>
    by code_simp+
  have i: \<open>js ''<img src="http://localhost:4000/'' @
      (if random_index demo_env < 5 then imgArr ! random_index demo_env
       else js ''undefined'') @ js ''"/>'' =
      js ''<img src="http://localhost:4000/img3.jpg"/>''\<close>
    by code_simp
  from update_image_from_payload[OF h, of demo_env] obtain q db' where
    "update demo_lib demo_env (tags_request ann, demo_store) =
       (tags_request ann\<lparr>status := 200, response := PostBody q\<rparr>, db')"
    \<open>p_body (request_body (tags_request ann)) = None \<longrightarrow>
       body q = body demo_post \<and>
       image_html q = Some (js ''<img src="http://localhost:4000/'' @
         (if random_index demo_env < 5 then imgArr ! random_index demo_env
          else js ''undefined'') @ js ''"/>'')\<close>
    by auto
  then have first:
    \<open>\<exists>q. response (fst (update demo_lib demo_env (tags_request ann, demo_store))) =
           PostBody q \<and>
        body q = body demo_post \<and>
        image_html q = Some (js ''<img src="http://localhost:4000/img3.jpg"/>'')\<close>
    using b by (simp add: i)
  have g: "update_schema (request_body body_request) = None"
    "castObjectId demo_lib (params_id body_request) = Some 7"
    by code_simp+
  have pb: \<open>p_body (request_body body_request) =
      Some (js ''<p>new '' @ js ''<img'' @ js '' alt="d" '' @ js ''src='' @
            js ''"http://c/d.png"'' @ js ''>'' @ js '' text</p>'')\<close>
    by code_simp
  have side: \<open>\<not> lt_i_in (js ''<p>new '')\<close>
    \<open>of_char CHR ''>'' \<notin> set (js '' alt="d" '')\<close>
    \<open>of_char CHR ''>'' \<notin> set (js ''"http://c/d.png"'')\<close>
    by code_simp+
  have lit: \<open>js ''<img'' @ js '' alt="d" '' @ js ''src='' @ js ''"http://c/d.png"'' @ js ''>'' =
      js ''<img alt="d" src="http://c/d.png">''\<close>
    \<open>js ''<p>new '' @ js ''<img'' @ js '' alt="d" '' @ js ''src='' @
       js ''"http://c/d.png"'' @ js ''>'' @ js '' text</p>'' =
     js ''<p>new <img alt="d" src="http://c/d.png"> text</p>''\<close>
    by (simp_all add: js_def)
  from update_image_from_payload[OF g(1) h(2) g(2) h(4), of demo_env] obtain q2 db2 where
    u2: "update demo_lib demo_env (body_request, demo_store) =
       (body_request\<lparr>status := 200, response := PostBody q2\<rparr>, db2)" and
    t2: "\<forall>pre a b post.
      p_body (request_body body_request) =
        Some (pre @ js ''<img'' @ a @ js ''src='' @ b @ js ''>'' @ post) \<and>
      \<not> lt_i_in pre \<and> of_char CHR ''>'' \<notin> set a \<and> of_char CHR ''>'' \<notin> set b \<longrightarrow>
      image_html q2 = Some (js ''<img'' @ a @ js ''src='' @ b @ js ''>'')"
    by auto
  have \<open>image_html q2 =
      Some (js ''<img'' @ js '' alt="d" '' @ js ''src='' @ js ''"http://c/d.png"'' @ js ''>'')\<close>
    using t2 pb side by blast
  then have \<open>image_html q2 = Some (js ''<img alt="d" src="http://c/d.png">'')\<close>
    by (simp only: lit)
  then have second:
    \<open>\<exists>q. response (fst (update demo_lib demo_env (body_request, demo_store))) =
           PostBody q \<and>
        image_html q = Some (js ''<img alt="d" src="http://c/d.png">'')\<close>
    using u2 by simp
  have pb': \<open>p_body (request_body body_request) =
     Some (js ''<p>new <img alt="d" src="http://c/d.png"> text</p>'')\<close>
    using pb by (simp only: lit)
  show ?thesis
    using h(1) b first g(1) pb' second by blast
qed

text \<open>
  Claim C9. For an update the validator accepts, of a post that exists on a store that
  answers, each of \<open>title\<close>, \<open>body\<close> and \<open>tags\<close> that the request does not
  supply keeps its stored value; an update that supplies only \<open>tags\<close> leaves
  \<open>title\<close> and \<open>body\<close> as they were. The id, the view counter, the publication
  date and the owner are never changed.
\<close>

theorem update_keeps_absent_fields:
  assumes "update_schema (request_body c) = None" and "up db"
    and "castObjectId L (params_id c) = Some i"
    and "find (\<lambda>p. oid p = i) (docs db) = Some p0"
  shows "\<exists>q db'. update L e (c, db) = (c\<lparr>status := 200, response := PostBody q\<rparr>, db') \<and>
           find (\<lambda>p. oid p = i) (docs db') = Some q \<and>
           (p_title (request_body c) = None \<longrightarrow> title q = title p0) \<and>
           (p_body (request_body c) = None \<longrightarrow> body q = body p0) \<and>
           (p_tags (request_body c) = None \<longrightarrow> tags q = tags p0) \<and>
           (\<forall>ts. request_body c = \<lparr>p_title = None, p_body = None, p_tags = Some ts\<rparr> \<longrightarrow>
                 title q = title p0 \<and> body q = body p0 \<and> tags q = ts) \<and>
           oid q = oid p0 \<and> count q = count p0 \<and> publishedDate q = publishedDate p0 \<and>
           user q = user p0"
proof -
  let ?f = "apply_update (nextData_of L e (request_body c))"
  have "oid (?f p0) = i"
    using find_oid[OF assms(4)] by (simp add: oid_apply_update)
  then have found: "find (\<lambda>p. oid p = i) (update_first i ?f (docs db)) = Some (?f p0)"
    using assms(4) by (rule find_update_first[rotated])
  show ?thesis
    using update_ok[OF assms, of e] found
    by (auto simp: apply_update_def nextData_of_def truthy_def)
qed

text \<open>
  The update of the sample post with only \<open>tags\<close> returns it with the new tags and
  the old title, body and counter.
\<close>

theorem update_keeps_absent_fields_witness:
  "update_schema (request_body (tags_request ann)) = None \<and>
   (\<exists>q. response (fst (update demo_lib demo_env (tags_request ann, demo_store))) =
           PostBody q \<and>
        title q = title demo_post \<and> body q = body demo_post \<and> tags q = [js ''x''] \<and>
        count q = count demo_post)"
proof -
  have h: "update_schema (request_body (tags_request ann)) = None" "up demo_store"
    "castObjectId demo_lib (params_id (tags_request ann)) = Some 7"
    "find (\<lambda>p. oid p = 7) (docs demo_store) = Some demo_post"
    by code_simp+
  have b: "request_body (tags_request ann) =
             \<lparr>p_title = None, p_body = None, p_tags = Some [js ''x'']\<rparr>"
    by code_simp
  from update_keeps_absent_fields[OF h, of demo_env] obtain q db' where
    "update demo_lib demo_env (tags_request ann, demo_store) =
       (tags_request ann\<lparr>status := 200, response := PostBody q\<rparr>, db')"
    "\<forall>ts. request_body (tags_request ann) =
            \<lparr>p_title = None, p_body = None, p_tags = Some ts\<rparr> \<longrightarrow>
          title q = title demo_post \<and> body q = body demo_post \<and> tags q = ts"
    "count q = count demo_post"
    by blast
  then show ?thesis
    using h(1) b by simp
qed

text \<open>
  Claim C6 does not hold of the code. The sample post is created with a body that
  contains an image tag, and that tag is its \<open>image\<close>. After an update by its owner
  that supplies only \<open>tags\<close>, the stored body is the same, but \<open>image\<close> is the
  fallback tag of the random index: it was recomputed although the body did not change,
  and it no longer comes from the saved body.
\<close>

theorem update_without_body_replaces_image:
  \<open>posts_post demo_lib demo_env (create_request, empty_store) =
     (create_request\<lparr>status := 200, response := PostBody demo_post\<rparr>, demo_store) \<and>
   body demo_post = Some (js ''<p><img src="http://a/b.png"></p>'') \<and>
   image_html demo_post = Some (js ''<img src="http://a/b.png">'') \<and>
   snd (posts_patch demo_lib demo_env (tags_request ann, demo_store)) =
     \<lparr>docs = [demo_post\<lparr>tags := [js ''x''],
                image_html := Some (js ''<img src="http://localhost:4000/img3.jpg"/>'')\<rparr>],
      up = True\<rparr>\<close>
  by code_simp

section \<open>Deleting a post\<close>

text \<open>
  Claim C7. On a store that answers, with an id that casts, \<open>remove\<close> responds 204
  whether or not a document has that id: with none, the store is left as it was and the
  response is still 204; with one, the first document with that id is removed.
\<close>

theorem remove_no_content:
  assumes "up db" and "castObjectId L (params_id c) = Some i"
  shows "status (fst (remove L (c, db))) = 204 \<and>
         (find (\<lambda>p. oid p = i) (docs db) = None \<longrightarrow>
            remove L (c, db) = (c\<lparr>status := 204\<rparr>, db)) \<and>
         (find (\<lambda>p. oid p = i) (docs db) \<noteq> None \<longrightarrow>
            remove L (c, db) = (c\<lparr>status := 204\<rparr>, db\<lparr>docs := remove_first i (docs db)\<rparr>))"
  using assms
  by (auto simp: remove_def Post_findByIdAndRemove_def remove_first_absent)

text \<open>
  Removing the id 9, which the sample store does not hold, gives 204 and the same
  store; removing the id 7 gives 204 and the empty store.
\<close>

theorem remove_no_content_witness:
  "find (\<lambda>p. oid p = 9) (docs demo_store) = None \<and>
   remove demo_lib (new_ctx\<lparr>params_id := js ''000000000000000000000009''\<rparr>, demo_store) =
     (new_ctx\<lparr>params_id := js ''000000000000000000000009'', status := 204\<rparr>, demo_store) \<and>
   remove demo_lib (read_request, demo_store) = (read_request\<lparr>status := 204\<rparr>, empty_store)"
proof -
  have h: "up demo_store"
    "castObjectId demo_lib
       (params_id (new_ctx\<lparr>params_id := js ''000000000000000000000009''\<rparr>)) = Some 9"
    "castObjectId demo_lib (params_id read_request) = Some 7"
    by code_simp+
  have f: "find (\<lambda>p. oid p = 9) (docs demo_store) = None"
    "find (\<lambda>p. oid p = 7) (docs demo_store) \<noteq> None"
    "demo_store\<lparr>docs := remove_first 7 (docs demo_store)\<rparr> = empty_store"
    by code_simp+
  show ?thesis
    using remove_no_content[OF h(1,2)] remove_no_content[OF h(1,3)] f by simp
qed

end
